theory Spec2Isabelle
  imports Complex_Main "HOL-Library.Multiset"
begin

section \<open>Python values and errors\<close>

text \<open>
  The exceptions that the modelled parts of \<^verbatim>\<open>ens_sel.py\<close> and
  \<^verbatim>\<open>ensemble_net/util.py\<close> can raise. \<open>ExtractorError\<close> stands for any
  exception raised inside \<^verbatim>\<open>process_chunk\<close> (the preprocessing functions
  are not part of the modelled code), \<open>OSError\<close> and \<open>PicklingError\<close> for what
  opening and writing a file can raise.
\<close>

datatype error = TypeError | ValueError | OverflowError | IndexError | KeyError | AttributeError
  | OSError | PicklingError | ExtractorError

text \<open>
  \<^verbatim>\<open>list(range(a, b))\<close> on Python integers: the integers \<open>a, a+1, ..., b-1\<close>,
  empty when \<open>b \<le> a\<close>.
\<close>

definition py_range :: "int \<Rightarrow> int \<Rightarrow> int list" where
  "py_range a b = [a..b - 1]"

text \<open>
  Python slicing \<^verbatim>\<open>xs[i:j]\<close>: a negative bound counts from the end, and
  both bounds are clamped to the list.
\<close>

definition slice_index :: "nat \<Rightarrow> int \<Rightarrow> nat" where
  "slice_index n i = (if i < 0 then nat (max 0 (int n + i)) else min n (nat i))"

definition py_slice :: "'a list \<Rightarrow> int \<Rightarrow> int \<Rightarrow> 'a list" where
  "py_slice xs i j =
     (let a = slice_index (length xs) i; b = slice_index (length xs) j
      in take (b - a) (drop a xs))"

section \<open>The validation split (ens\_sel.py, lines 130--145)\<close>

text \<open>
  The \<^verbatim>\<open>random\<close> branch:
  \<^verbatim>\<open>
    for j in range(val_size):
        i = random.choice(train_set)
        val_set.append(i)
        train_set.remove(i)
  \<close>
  \<^verbatim>\<open>random.choice(seq)\<close> raises IndexError on an empty sequence and otherwise
  returns \<^verbatim>\<open>seq[k]\<close> for a random \<open>k\<close> below \<^verbatim>\<open>len(seq)\<close>. The random
  source is the parameter \<open>draw\<close>: iteration \<open>j\<close> picks position
  \<open>draw j mod len(train_set)\<close>, so every element can be picked and nothing else.
\<close>

fun random_split :: "(nat \<Rightarrow> nat) \<Rightarrow> nat list \<Rightarrow> int list \<Rightarrow> int list \<Rightarrow> error + (int list \<times> int list)" where
  "random_split draw [] train_set val_set = Inr (train_set, val_set)"
| "random_split draw (j # js) train_set val_set =
     (if train_set = [] then Inl IndexError
      else let i = train_set ! (draw j mod length train_set)
           in random_split draw js (remove1 i train_set) (val_set @ [i]))"

text \<open>
  The whole split. \<open>num_dates\<close> is a dimension of the predictor array and so a natural
  number; \<open>val_size\<close> and \<open>val\<close> are configuration constants, any Python integer and
  any string. The result is the pair \<open>(train_set, val_set)\<close>.
\<close>

definition validation_split :: "(nat \<Rightarrow> nat) \<Rightarrow> string \<Rightarrow> int \<Rightarrow> nat \<Rightarrow> error + (int list \<times> int list)" where
  "validation_split draw val val_size num_dates =
     (if val = ''first'' then
        Inr (py_range val_size (int num_dates), py_range 0 val_size)
      else if val = ''last'' then
        Inr (py_range 0 (int num_dates - val_size),
             py_range (int num_dates - val_size) (int num_dates))
      else if val = ''random'' then
        (case random_split draw [0..<nat val_size] (py_range 0 (int num_dates)) [] of
           Inl e \<Rightarrow> Inl e
         | Inr (train_set, val_set) \<Rightarrow> Inr (train_set, sort val_set))
      else Inl ValueError)"

section \<open>Chunks for online training (ens\_sel.py, lines 147--152)\<close>

text \<open>
  \<^verbatim>\<open>
    chunks = []
    index = 0
    while index < len(train_set):
        chunks.append(train_set[index:index + chunk_size])
        index += chunk_size
  \<close>
  The loop does not end when \<open>chunk_size \<le> 0\<close> and the training set is not empty, so
  it is a partial function: \<open>None\<close> is the run that never returns.
\<close>

partial_function (option) chunk_loop :: "int list \<Rightarrow> int \<Rightarrow> int list list \<Rightarrow> int \<Rightarrow> int list list option" where
  "chunk_loop train_set chunk_size chunks index =
     (if index < int (length train_set) then
        chunk_loop train_set chunk_size
          (chunks @ [py_slice train_set index (index + chunk_size)]) (index + chunk_size)
      else Some chunks)"

definition make_chunks :: "int list \<Rightarrow> int \<Rightarrow> int list list option" where
  "make_chunks train_set chunk_size = chunk_loop train_set chunk_size [] 0"

section \<open>The parameter check on \<open>variables\<close> (ens\_sel.py, lines 56--71)\<close>

text \<open>
  The Python values a configuration constant is taken from: \<^verbatim>\<open>None\<close>, integers,
  floats, strings, lists and tuples. A float is a finite value, here the rational
  number it stands for, an infinity or a NaN.
\<close>

datatype pyfloat = Finite rat | Infinity | NegInfinity | NaN

datatype pyval = PyNone | PyInt int | PyFloat pyfloat | PyStr string
  | PyList "pyval list" | PyTuple "pyval list"

text \<open>
  \<^verbatim>\<open>int(v)\<close> returns an integer as it is, cuts a finite float towards zero, raises
  ValueError on a NaN and OverflowError on an infinity, parses a string (the parser is
  the parameter \<open>parse\<close>, \<open>None\<close> where Python raises ValueError) and raises TypeError
  on \<^verbatim>\<open>None\<close>, a list or a tuple.
\<close>

fun py_int :: "(string \<Rightarrow> int option) \<Rightarrow> pyval \<Rightarrow> error + int" where
  "py_int parse (PyInt n) = Inr n"
| "py_int parse (PyFloat (Finite q)) = Inr (if 0 \<le> q then floor q else ceiling q)"
| "py_int parse (PyFloat NaN) = Inl ValueError"
| "py_int parse (PyFloat Infinity) = Inl OverflowError"
| "py_int parse (PyFloat NegInfinity) = Inl OverflowError"
| "py_int parse (PyStr s) = (case parse s of None \<Rightarrow> Inl ValueError | Some n \<Rightarrow> Inr n)"
| "py_int parse PyNone = Inl TypeError"
| "py_int parse (PyList vs) = Inl TypeError"
| "py_int parse (PyTuple vs) = Inl TypeError"









definition infinite_float :: "pyval \<Rightarrow> bool" where
  "infinite_float v = (v = PyFloat Infinity \<or> v = PyFloat NegInfinity)"

section \<open>The online training loop (ens\_sel.py, lines 95--100 and 199--227)\<close>

text \<open>
  Arrays are values of a type \<open>'a\<close>. The parameter \<open>process_chunk\<close> maps the index list
  of a chunk to its predictors and targets or raises: it stands for
  \<^verbatim>\<open>process_chunk(predictor_ds.isel(init_date=idx), **ens_sel)\<close>, whose preprocessing
  functions are not part of the modelled code, and the selection of dates by
  \<^verbatim>\<open>isel\<close> alone is taken to return. The selector is a value of type \<open>'m\<close> and
  \<^verbatim>\<open>selector.fit\<close> a parameter returning the updated selector and the history
  record (type \<open>'h\<close>); it is taken to return.

  The state of the main flow: the flag \<open>first_chunk\<close>, the manager dictionary
  \<open>shared_chunk\<close>, the selector and \<open>history\<close>. The field \<open>trace\<close> is a log of what
  happened, in order; nothing reads it. Its events: the main flow materialised chunk
  \<open>c\<close> itself and got \<open>(p, t)\<close>; the main flow, at chunk \<open>c\<close>, read \<open>(p, t)\<close> from the
  dictionary; the main flow started the worker for chunk \<open>n\<close>; that worker wrote the key
  \<open>p\<close>, wrote the key \<open>t\<close>, or raised; the main flow called fit in loop \<open>l\<close> at chunk
  \<open>c\<close> on \<open>(p, t)\<close>; the main flow joined the worker.
\<close>

datatype 'a event =
    Materialize nat 'a 'a
  | SlotRead nat 'a 'a
  | Start nat
  | WriteP nat 'a
  | WriteT nat 'a
  | WorkerRaised nat error
  | Fit nat nat 'a 'a
  | Join

record ('a, 'm, 'h) state =
  first_chunk :: bool
  shared_chunk :: "string \<rightharpoonup> 'a"
  selector :: 'm
  history :: "'h list"
  trace :: "'a event list"

definition log_event :: "'a event \<Rightarrow> ('a, 'm, 'h) state \<Rightarrow> ('a, 'm, 'h) state" where
  "log_event e st = st\<lparr>trace := trace st @ [e]\<rparr>"

text \<open>
  The batch of the current iteration (lines 210--215): on the first chunk of the run a
  blocking call of \<open>process_chunk\<close>, afterwards the two entries of the dictionary, each
  lookup raising KeyError when the key is missing. The arrays are values, so the
  \<^verbatim>\<open>.copy()\<close> of the source is the value read.
\<close>

definition current_batch :: "(int list \<Rightarrow> error + 'a \<times> 'a) \<Rightarrow> int list list \<Rightarrow> nat
    \<Rightarrow> ('a, 'm, 'h) state \<Rightarrow> error + ('a \<times> 'a \<times> ('a, 'm, 'h) state)" where
  "current_batch process_chunk chunks chunk st =
     (if first_chunk st then
        (if chunk < length chunks then
           (case process_chunk (chunks ! chunk) of
              Inl e \<Rightarrow> Inl e
            | Inr (p, t) \<Rightarrow> Inr (p, t, log_event (Materialize chunk p t) (st\<lparr>first_chunk := False\<rparr>)))
         else Inl IndexError)
      else
        (case shared_chunk st ''p'' of
           None \<Rightarrow> Inl KeyError
         | Some p \<Rightarrow>
             (case shared_chunk st ''t'' of
                None \<Rightarrow> Inl KeyError
              | Some t \<Rightarrow> Inr (p, t, log_event (SlotRead chunk p t) st))))"

text \<open>
  Between \<^verbatim>\<open>process.start()\<close> and \<^verbatim>\<open>process.join()\<close> the main flow calls
  \<^verbatim>\<open>selector.fit\<close> once and the worker runs \<^verbatim>\<open>subprocess_chunk\<close>: it
  computes \<open>process_chunk\<close> and then writes the key \<open>p\<close> and the key \<open>t\<close>, in this
  order. The fit is one step of the main flow, so three interleavings are left.
\<close>

datatype timing = WorkerFirst | WorkerSplit | FitFirst

datatype action = WorkerWriteP | WorkerWriteT | MainFit

fun interleaving :: "timing \<Rightarrow> action list" where
  "interleaving WorkerFirst = [WorkerWriteP, WorkerWriteT, MainFit]"
| "interleaving WorkerSplit = [WorkerWriteP, MainFit, WorkerWriteT]"
| "interleaving FitFirst = [MainFit, WorkerWriteP, WorkerWriteT]"

text \<open>
  One step between start and join. \<open>w\<close> is what \<open>process_chunk\<close> gave the worker. When
  it raised, \<^verbatim>\<open>subprocess_chunk\<close> ends before its first write: the child process
  prints the traceback and exits, and the dictionary stays as it was.
\<close>

fun perform :: "('m \<Rightarrow> 'a \<Rightarrow> 'a \<Rightarrow> 'a \<times> 'a \<Rightarrow> 'm \<times> 'h) \<Rightarrow> 'a \<times> 'a \<Rightarrow> (error + 'a \<times> 'a) \<Rightarrow> nat
    \<Rightarrow> nat \<Rightarrow> nat \<Rightarrow> 'a \<Rightarrow> 'a \<Rightarrow> ('a, 'm, 'h) state \<Rightarrow> action \<Rightarrow> ('a, 'm, 'h) state" where
  "perform fit val_data w next_chunk loop chunk predictors targets st WorkerWriteP =
     (case w of
        Inl e \<Rightarrow> log_event (WorkerRaised next_chunk e) st
      | Inr (p, t) \<Rightarrow> log_event (WriteP next_chunk p) (st\<lparr>shared_chunk := (shared_chunk st)(''p'' \<mapsto> p)\<rparr>))"
| "perform fit val_data w next_chunk loop chunk predictors targets st WorkerWriteT =
     (case w of
        Inl e \<Rightarrow> st
      | Inr (p, t) \<Rightarrow> log_event (WriteT next_chunk t) (st\<lparr>shared_chunk := (shared_chunk st)(''t'' \<mapsto> t)\<rparr>))"
| "perform fit val_data w next_chunk loop chunk predictors targets st MainFit =
     (case fit (selector st) predictors targets val_data of
        (m, hist) \<Rightarrow>
          log_event (Fit loop chunk predictors targets) (st\<lparr>selector := m, history := history st @ [hist]\<rparr>))"

text \<open>
  The body of the inner loop (lines 207--227):
  \<^verbatim>\<open>
    if first_chunk:
        new_ds = predictor_ds.isel(init_date=chunks[chunk])
        predictors, targets = process_chunk(new_ds, **ens_sel)
        first_chunk = False
    else:
        predictors, targets = (shared_chunk['p'].copy(), shared_chunk['t'].copy())
    next_chunk = (chunk + 1 if chunk < len(chunks) - 1 else 0)
    new_ds = predictor_ds.isel(init_date=chunks[next_chunk])
    process = multiprocessing.Process(target=subprocess_chunk, ...)
    process.start()
    hist = selector.fit(predictors, targets, ...)
    history.append(hist)
    process.join()
  \<close>
  \<^verbatim>\<open>process.join()\<close> waits for the child and returns nothing, whatever the child's
  exit code, and the exit code is not looked at. An index outside \<open>chunks\<close> raises
  IndexError in the main flow.
\<close>

definition iteration :: "(int list \<Rightarrow> error + 'a \<times> 'a) \<Rightarrow> ('m \<Rightarrow> 'a \<Rightarrow> 'a \<Rightarrow> 'a \<times> 'a \<Rightarrow> 'm \<times> 'h) \<Rightarrow> 'a \<times> 'a
    \<Rightarrow> int list list \<Rightarrow> timing \<Rightarrow> nat \<Rightarrow> nat \<Rightarrow> ('a, 'm, 'h) state
    \<Rightarrow> (error \<times> ('a, 'm, 'h) state) + ('a, 'm, 'h) state" where
  "iteration process_chunk fit val_data chunks tm loop chunk st =
     (case current_batch process_chunk chunks chunk st of
        Inl e \<Rightarrow> Inl (e, st)
      | Inr (predictors, targets, st1) \<Rightarrow>
          (let next_chunk = (if int chunk < int (length chunks) - 1 then chunk + 1 else 0)
           in if next_chunk < length chunks then
                (let st2 = log_event (Start next_chunk) st1;
                     w = process_chunk (chunks ! next_chunk);
                     st3 = foldl (perform fit val_data w next_chunk loop chunk predictors targets)
                             st2 (interleaving tm)
                 in Inr (log_event Join st3))
              else Inl (IndexError, st1)))"

text \<open>
  \<^verbatim>\<open>for chunk in range(len(chunks))\<close> and \<^verbatim>\<open>for loop in range(loops)\<close>; an
  exception ends both. \<open>sched loop chunk\<close> is the interleaving of that iteration.
\<close>

fun inner_loop :: "(int list \<Rightarrow> error + 'a \<times> 'a) \<Rightarrow> ('m \<Rightarrow> 'a \<Rightarrow> 'a \<Rightarrow> 'a \<times> 'a \<Rightarrow> 'm \<times> 'h) \<Rightarrow> 'a \<times> 'a
    \<Rightarrow> int list list \<Rightarrow> (nat \<Rightarrow> nat \<Rightarrow> timing) \<Rightarrow> nat \<Rightarrow> nat list \<Rightarrow> ('a, 'm, 'h) state
    \<Rightarrow> (error \<times> ('a, 'm, 'h) state) + ('a, 'm, 'h) state" where
  "inner_loop process_chunk fit val_data chunks sched loop [] st = Inr st"
| "inner_loop process_chunk fit val_data chunks sched loop (chunk # cs) st =
     (case iteration process_chunk fit val_data chunks (sched loop chunk) loop chunk st of
        Inl x \<Rightarrow> Inl x
      | Inr st' \<Rightarrow> inner_loop process_chunk fit val_data chunks sched loop cs st')"

fun outer_loop :: "(int list \<Rightarrow> error + 'a \<times> 'a) \<Rightarrow> ('m \<Rightarrow> 'a \<Rightarrow> 'a \<Rightarrow> 'a \<times> 'a \<Rightarrow> 'm \<times> 'h) \<Rightarrow> 'a \<times> 'a
    \<Rightarrow> int list list \<Rightarrow> (nat \<Rightarrow> nat \<Rightarrow> timing) \<Rightarrow> nat list \<Rightarrow> ('a, 'm, 'h) state
    \<Rightarrow> (error \<times> ('a, 'm, 'h) state) + ('a, 'm, 'h) state" where
  "outer_loop process_chunk fit val_data chunks sched [] st = Inr st"
| "outer_loop process_chunk fit val_data chunks sched (loop # ls) st =
     (case inner_loop process_chunk fit val_data chunks sched loop [0..<length chunks] st of
        Inl x \<Rightarrow> Inl x
      | Inr st' \<Rightarrow> outer_loop process_chunk fit val_data chunks sched ls st')"

text \<open>
  Lines 199--227 from the selector left by the setup; \<^verbatim>\<open>range(loops)\<close> is empty
  for \<open>loops \<le> 0\<close>.
\<close>

definition online_training :: "(int list \<Rightarrow> error + 'a \<times> 'a) \<Rightarrow> ('m \<Rightarrow> 'a \<Rightarrow> 'a \<Rightarrow> 'a \<times> 'a \<Rightarrow> 'm \<times> 'h) \<Rightarrow> 'a \<times> 'a
    \<Rightarrow> int list list \<Rightarrow> (nat \<Rightarrow> nat \<Rightarrow> timing) \<Rightarrow> int \<Rightarrow> 'm
    \<Rightarrow> (error \<times> ('a, 'm, 'h) state) + ('a, 'm, 'h) state" where
  "online_training process_chunk fit val_data chunks sched loops sel =
     outer_loop process_chunk fit val_data chunks sched [0..<nat loops]
       \<lparr>first_chunk = True, shared_chunk = Map.empty, selector = sel, history = [], trace = []\<rparr>"

text \<open>
  The setup (lines 154--192) followed by the training: the validation batch, the model
  built from its shapes (\<open>build_model\<close>), the imputer and scaler fitted on the head of
  the training set (\<open>init_fit\<close>). An exception of the setup leaves no training state.
\<close>

definition train :: "(int list \<Rightarrow> error + 'a \<times> 'a) \<Rightarrow> ('a \<Rightarrow> 'a \<Rightarrow> 'm) \<Rightarrow> ('m \<Rightarrow> 'a \<Rightarrow> 'a \<Rightarrow> 'm)
    \<Rightarrow> ('m \<Rightarrow> 'a \<Rightarrow> 'a \<Rightarrow> 'a \<times> 'a \<Rightarrow> 'm \<times> 'h) \<Rightarrow> (nat \<Rightarrow> nat \<Rightarrow> timing)
    \<Rightarrow> int list \<Rightarrow> int list \<Rightarrow> int list list \<Rightarrow> int \<Rightarrow> int
    \<Rightarrow> (error \<times> ('a, 'm, 'h) state option) + ('a, 'm, 'h) state" where
  "train process_chunk build_model init_fit fit sched val_set train_set chunks scaler_fit_size loops =
     (case process_chunk val_set of
        Inl e \<Rightarrow> Inl (e, None)
      | Inr (p_val, t_val) \<Rightarrow>
          (let selector0 = build_model p_val t_val;
               fit_set = py_slice train_set 0 scaler_fit_size
           in case process_chunk fit_set of
                Inl e \<Rightarrow> Inl (e, None)
              | Inr (predictors, targets) \<Rightarrow>
                  (case online_training process_chunk fit (p_val, t_val) chunks sched loops
                          (init_fit selector0 predictors targets) of
                     Inl (e, st) \<Rightarrow> Inl (e, Some st)
                   | Inr st \<Rightarrow> Inr st)))"

text \<open>Reading the log: the chunk indices prefetched and the fit calls, in order.\<close>

fun prefetched :: "'a event list \<Rightarrow> nat list" where
  "prefetched [] = []"
| "prefetched (Start n # es) = n # prefetched es"
| "prefetched (e # es) = prefetched es"

fun fit_calls :: "'a event list \<Rightarrow> (nat \<times> nat) list" where
  "fit_calls [] = []"
| "fit_calls (Fit loop chunk p t # es) = (loop, chunk) # fit_calls es"
| "fit_calls (e # es) = fit_calls es"

text \<open>
  The batches of the fit calls logged, in order, and what fit calls on a list of batches
  one after the other, from a selector \<open>m\<close>, give: the last selector and the history
  records.
\<close>

fun fit_batches :: "'a event list \<Rightarrow> ('a \<times> 'a) list" where
  "fit_batches [] = []"
| "fit_batches (Fit loop chunk p t # es) = (p, t) # fit_batches es"
| "fit_batches (e # es) = fit_batches es"

fun fit_all :: "('m \<Rightarrow> 'a \<Rightarrow> 'a \<Rightarrow> 'a \<times> 'a \<Rightarrow> 'm \<times> 'h) \<Rightarrow> 'a \<times> 'a \<Rightarrow> 'm \<Rightarrow> ('a \<times> 'a) list
    \<Rightarrow> 'm \<times> 'h list" where
  "fit_all fit val_data m [] = (m, [])"
| "fit_all fit val_data m ((p, t) # bs) =
     (case fit m p t val_data of
        (m', hist) \<Rightarrow>
          (case fit_all fit val_data m' bs of (m'', hists) \<Rightarrow> (m'', hist # hists)))"

text \<open>The events of the main flow, and the events that touch or guard the dictionary.\<close>

fun main_flow :: "'a event \<Rightarrow> bool" where
  "main_flow (WriteP n p) = False"
| "main_flow (WriteT n t) = False"
| "main_flow (WorkerRaised n e) = False"
| "main_flow e = True"

fun slot_event :: "'a event \<Rightarrow> bool" where
  "slot_event (Materialize c p t) = False"
| "slot_event (Start n) = False"
| "slot_event (Fit l c p t) = False"
| "slot_event e = True"

text \<open>What a run ended with, whether it returned or raised.\<close>

definition result_error :: "(error \<times> ('a, 'm, 'h) state) + ('a, 'm, 'h) state \<Rightarrow> error option" where
  "result_error r = (case r of Inl (e, st) \<Rightarrow> Some e | Inr st \<Rightarrow> None)"

definition result_state :: "(error \<times> ('a, 'm, 'h) state) + ('a, 'm, 'h) state \<Rightarrow> ('a, 'm, 'h) state" where
  "result_state r = (case r of Inl (e, st) \<Rightarrow> st | Inr st \<Rightarrow> st)"

subsection \<open>The run as the specification describes it\<close>

text \<open>
  The specification's schedule, for an extractor that returns the predictors \<open>P c\<close> and
  the targets \<open>T c\<close> on chunk \<open>c\<close> of \<open>n\<close> chunks: the index prefetched next, the event
  by which an iteration gets its batch (the blocking call on the very first iteration,
  the dictionary afterwards), and the events of one iteration: all of them, those of
  the main flow, and those on the dictionary.
\<close>

definition next_index :: "nat \<Rightarrow> nat \<Rightarrow> nat" where
  "next_index n current_index = (current_index + 1) mod n"

definition obtain_event :: "(nat \<Rightarrow> 'a) \<Rightarrow> (nat \<Rightarrow> 'a) \<Rightarrow> nat \<Rightarrow> nat \<Rightarrow> 'a event" where
  "obtain_event P T loop chunk =
     (if loop = 0 \<and> chunk = 0 then Materialize chunk (P chunk) (T chunk)
      else SlotRead chunk (P chunk) (T chunk))"

fun action_event :: "(nat \<Rightarrow> 'a) \<Rightarrow> (nat \<Rightarrow> 'a) \<Rightarrow> nat \<Rightarrow> nat \<Rightarrow> nat \<Rightarrow> action \<Rightarrow> 'a event" where
  "action_event P T n loop chunk WorkerWriteP = WriteP (next_index n chunk) (P (next_index n chunk))"
| "action_event P T n loop chunk WorkerWriteT = WriteT (next_index n chunk) (T (next_index n chunk))"
| "action_event P T n loop chunk MainFit = Fit loop chunk (P chunk) (T chunk)"

definition iteration_events :: "(nat \<Rightarrow> 'a) \<Rightarrow> (nat \<Rightarrow> 'a) \<Rightarrow> nat \<Rightarrow> (nat \<Rightarrow> nat \<Rightarrow> timing)
    \<Rightarrow> nat \<times> nat \<Rightarrow> 'a event list" where
  "iteration_events P T n sched lc =
     (case lc of (loop, chunk) \<Rightarrow>
        obtain_event P T loop chunk # Start (next_index n chunk)
          # map (action_event P T n loop chunk) (interleaving (sched loop chunk)) @ [Join])"

definition main_flow_events :: "(nat \<Rightarrow> 'a) \<Rightarrow> (nat \<Rightarrow> 'a) \<Rightarrow> nat \<Rightarrow> nat \<times> nat \<Rightarrow> 'a event list" where
  "main_flow_events P T n lc =
     (case lc of (loop, chunk) \<Rightarrow>
        [obtain_event P T loop chunk, Start (next_index n chunk),
         Fit loop chunk (P chunk) (T chunk), Join])"

definition handoff_events :: "(nat \<Rightarrow> 'a) \<Rightarrow> (nat \<Rightarrow> 'a) \<Rightarrow> nat \<Rightarrow> nat \<times> nat \<Rightarrow> 'a event list" where
  "handoff_events P T n lc =
     (case lc of (loop, chunk) \<Rightarrow>
        (if loop = 0 \<and> chunk = 0 then [] else [SlotRead chunk (P chunk) (T chunk)])
        @ [WriteP (next_index n chunk) (P (next_index n chunk)),
           WriteT (next_index n chunk) (T (next_index n chunk)), Join])"

text \<open>
  The same for any extractor: the (loop, chunk) pairs in the order of the two loops,
  the events of the main flow with the arrays left out, and the schedule of a list of
  iterations in that form.
\<close>

definition iterations :: "int \<Rightarrow> nat \<Rightarrow> (nat \<times> nat) list" where
  "iterations loops n = List.product [0..<nat loops] [0..<n]"

definition main_flow_shape :: "'a event list \<Rightarrow> unit event list" where
  "main_flow_shape es = map (map_event (\<lambda>x. ())) (filter main_flow es)"

definition schedule_shape :: "nat \<Rightarrow> (nat \<times> nat) list \<Rightarrow> unit event list" where
  "schedule_shape n lcs = concat (map (main_flow_events (\<lambda>c. ()) (\<lambda>c. ()) n) lcs)"

text \<open>
  The condition under which an iteration of chunk \<open>c\<close> in loop \<open>l\<close> starts in a run
  whose extractor returns: the flag is still set exactly on the first iteration, and
  afterwards the dictionary holds the batch of chunk \<open>c\<close>.
\<close>

definition ready :: "(nat \<Rightarrow> 'a) \<Rightarrow> (nat \<Rightarrow> 'a) \<Rightarrow> nat \<Rightarrow> nat \<Rightarrow> ('a, 'm, 'h) state \<Rightarrow> bool" where
  "ready P T loop chunk st =
     (if loop = 0 \<and> chunk = 0 then first_chunk st
      else \<not> first_chunk st \<and> shared_chunk st ''p'' = Some (P chunk)
           \<and> shared_chunk st ''t'' = Some (T chunk))"

section \<open>Saving a model (ensemble\_net/util.py, lines 94--108)\<close>

text \<open>
  An instance has the attribute \<open>model\<close> (\<open>None\<close> is Python's \<^verbatim>\<open>None\<close>) and its
  other state. Objects live in a store, a list indexed by address; the files written
  are a map from file name to content.
\<close>

record ('k, 's) model_instance =
  model :: "'k option"
  other :: 's

record ('k, 's, 'c) world =
  store :: "('k, 's) model_instance list"
  files :: "string \<rightharpoonup> 'c"

text \<open>
  \<^verbatim>\<open>
    model.model.save('%s.keras' % file_name)
    model_copy = deepcopy(model)
    model_copy.model = None
    with open('%s.pkl' % file_name, 'wb') as f:
        pickle.dump(model_copy, f, protocol=pickle.HIGHEST_PROTOCOL)
  \<close>
  The four calls into libraries are parameters, and each can raise: \<open>native k name\<close> is
  the content that the model's own \<^verbatim>\<open>save\<close> writes to the file \<open>name\<close>;
  \<open>deepcopy\<close> gives the contents of the copy, which also copies the native model;
  \<open>open_wb\<close> is \<open>None\<close> when the file opens for writing; \<open>pickle\<close> is the content that
  \<^verbatim>\<open>pickle.dump\<close> writes. The copy is a new object of the store, and the
  assignment updates the object at its address. Calling \<^verbatim>\<open>save\<close> on
  \<^verbatim>\<open>None\<close> raises AttributeError. The argument \<open>a\<close> is the address of the instance
  passed, an object of the store. An exception leaves the store as it is at that
  point; what a raising call leaves on disk is not modelled.
\<close>

definition save_model :: "('k \<Rightarrow> string \<Rightarrow> error + 'c)
    \<Rightarrow> (('k, 's) model_instance \<Rightarrow> error + ('k, 's) model_instance)
    \<Rightarrow> (string \<Rightarrow> error option) \<Rightarrow> (('k, 's) model_instance \<Rightarrow> error + 'c) \<Rightarrow> nat \<Rightarrow> string
    \<Rightarrow> ('k, 's, 'c) world \<Rightarrow> (error \<times> ('k, 's) model_instance list) + ('k, 's, 'c) world" where
  "save_model native deepcopy open_wb pickle a file_name w =
     (case model (store w ! a) of
        None \<Rightarrow> Inl (AttributeError, store w)
      | Some k \<Rightarrow>
          (case native k (file_name @ ''.keras'') of
             Inl e \<Rightarrow> Inl (e, store w)
           | Inr c \<Rightarrow>
               (let w1 = w\<lparr>files := (files w)(file_name @ ''.keras'' \<mapsto> c)\<rparr>
                in case deepcopy (store w1 ! a) of
                     Inl e \<Rightarrow> Inl (e, store w1)
                   | Inr cp \<Rightarrow>
                       (let model_copy = length (store w1);
                            w2 = w1\<lparr>store := store w1 @ [cp]\<rparr>;
                            w3 = w2\<lparr>store := (store w2)
                                   [model_copy := (store w2 ! model_copy)\<lparr>model := None\<rparr>]\<rparr>
                        in case open_wb (file_name @ ''.pkl'') of
                             Some e \<Rightarrow> Inl (e, store w3)
                           | None \<Rightarrow>
                               (case pickle (store w3 ! model_copy) of
                                  Inl e \<Rightarrow> Inl (e, store w3)
                                | Inr c' \<Rightarrow>
                                    Inr (w3\<lparr>files := (files w3)
                                           (file_name @ ''.pkl'' \<mapsto> c')\<rparr>))))))"

section \<open>Concrete inputs\<close>

text \<open>
  Inputs for the concrete runs below: a random source that always picks the first
  candidate, an integer parser that rejects every string, three chunks, an extractor
  that returns the index list and its negation as predictors and targets, one that
  raises on every chunk holding the date 4, a fit that counts its calls in the selector
  and records the predictors it was given, and the schedule in which every worker
  writes before the fit.
\<close>

definition first_draw :: "nat \<Rightarrow> nat" where
  "first_draw j = 0"


definition demo_chunks :: "int list list" where
  "demo_chunks = [[0, 1], [2, 3], [4]]"

definition demo_extract :: "int list \<Rightarrow> error + int list \<times> int list" where
  "demo_extract idx = Inr (idx, map uminus idx)"

definition failing_extract :: "int list \<Rightarrow> error + int list \<times> int list" where
  "failing_extract idx = (if 4 \<in> set idx then Inl ExtractorError else demo_extract idx)"

definition demo_fit :: "nat \<Rightarrow> int list \<Rightarrow> int list \<Rightarrow> int list \<times> int list \<Rightarrow> nat \<times> int list" where
  "demo_fit m p t v = (Suc m, p)"

definition worker_first :: "nat \<Rightarrow> nat \<Rightarrow> timing" where
  "worker_first loop chunk = WorkerFirst"

section \<open>Properties of the validation split\<close>

lemma length_py_range: "length (py_range a b) = nat (b - a)"
  by (simp add: py_range_def)

lemma set_py_range: "set (py_range a b) = {a..<b}"
  by (auto simp: py_range_def)

lemma distinct_py_range: "distinct (py_range a b)"
  by (simp add: py_range_def)

text \<open>
  While enough candidates are left, the random branch returns, and it only moves
  elements from the training set to the validation set.
\<close>

lemma random_split_ok:
  "length js \<le> length train_set \<Longrightarrow>
   \<exists>tr vs. random_split draw js train_set val_set = Inr (tr, vs)
     \<and> mset tr + mset vs = mset train_set + mset val_set
     \<and> length vs = length val_set + length js"
proof (induction js arbitrary: train_set val_set)
  case Nil
  then show ?case by simp
next
  case (Cons j js)
  then have ne: "train_set \<noteq> []" by auto
  define i where "i = train_set ! (draw j mod length train_set)"
  have mem: "i \<in> set train_set" using ne by (simp add: i_def)
  have len: "length js \<le> length (remove1 i train_set)"
    using Cons.prems mem by (simp add: length_remove1)
  from Cons.IH [OF len, of "val_set @ [i]"] obtain tr vs where
    r: "random_split draw js (remove1 i train_set) (val_set @ [i]) = Inr (tr, vs)"
    and m: "mset tr + mset vs = mset (remove1 i train_set) + mset (val_set @ [i])"
    and l: "length vs = length (val_set @ [i]) + length js" by blast
  have "mset (remove1 i train_set) + mset (val_set @ [i]) = mset train_set + mset val_set"
    using mem by simp
  with r m l ne show ?case by (simp add: i_def Let_def)
qed

text \<open>With more draws than candidates, a draw meets the empty list.\<close>

lemma random_split_exhausted:
  "length train_set < length js \<Longrightarrow> random_split draw js train_set val_set = Inl IndexError"
proof (induction js arbitrary: train_set val_set)
  case Nil
  then show ?case by simp
next
  case (Cons j js)
  show ?case
  proof (cases "train_set = []")
    case True
    then show ?thesis by simp
  next
    case False
    define i where "i = train_set ! (draw j mod length train_set)"
    have mem: "i \<in> set train_set" using False by (simp add: i_def)
    have "0 < length train_set" using False by simp
    moreover have "length (remove1 i train_set) = length train_set - 1"
      using mem by (simp add: length_remove1)
    ultimately have "length (remove1 i train_set) < length js"
      using Cons.prems by (simp del: length_greater_0_conv)
    from Cons.IH [OF this] show ?thesis using False by (simp add: i_def Let_def)
  qed
qed

lemma validation_split_first:
  assumes "0 \<le> val_size" "val_size \<le> int num_dates"
  shows "\<exists>train_set val_set.
       validation_split draw ''first'' val_size num_dates = Inr (train_set, val_set)
     \<and> int (length val_set) = val_size
     \<and> length train_set + length val_set = num_dates
     \<and> set train_set \<inter> set val_set = {}
     \<and> set train_set \<union> set val_set = set (py_range 0 (int num_dates))"
  using assms by (auto simp: validation_split_def length_py_range set_py_range)

lemma validation_split_last:
  assumes "0 \<le> val_size" "val_size \<le> int num_dates"
  shows "\<exists>train_set val_set.
       validation_split draw ''last'' val_size num_dates = Inr (train_set, val_set)
     \<and> int (length val_set) = val_size
     \<and> length train_set + length val_set = num_dates
     \<and> set train_set \<inter> set val_set = {}
     \<and> set train_set \<union> set val_set = set (py_range 0 (int num_dates))"
  using assms by (auto simp: validation_split_def length_py_range set_py_range)

lemma validation_split_random:
  assumes "0 \<le> val_size" "val_size \<le> int num_dates"
  shows "\<exists>train_set val_set.
       validation_split draw ''random'' val_size num_dates = Inr (train_set, val_set)
     \<and> int (length val_set) = val_size
     \<and> length train_set + length val_set = num_dates
     \<and> set train_set \<inter> set val_set = {}
     \<and> set train_set \<union> set val_set = set (py_range 0 (int num_dates))
     \<and> sorted val_set \<and> distinct val_set"
proof -
  have "length [0..<nat val_size] \<le> length (py_range 0 (int num_dates))"
    using assms by (simp add: length_py_range)
  from random_split_ok [OF this, of draw "[]"] obtain tr vs where
    r: "random_split draw [0..<nat val_size] (py_range 0 (int num_dates)) [] = Inr (tr, vs)"
    and m: "mset tr + mset vs = mset (py_range 0 (int num_dates))"
    and l: "length vs = nat val_size" by auto
  have d: "distinct (tr @ vs)"
    using m distinct_py_range [of 0 "int num_dates"]
    by (metis mset_append mset_eq_imp_distinct_iff)
  have s: "set tr \<union> set vs = set (py_range 0 (int num_dates))"
    using m by (metis mset_append set_append mset_eq_setD)
  have n: "length tr + length vs = num_dates"
    using m by (metis mset_append length_append mset_eq_length length_py_range diff_zero nat_int)
  show ?thesis
    using r l d s n assms by (simp add: validation_split_def)
qed

text \<open>
  Claim C4, as the code has it. For every \<open>num_dates\<close> and \<open>val_size\<close> with
  \<open>0 \<le> val_size \<le> num_dates\<close> and every strategy among first, last and random, the
  split returns a training set and a validation set: the validation set has \<open>val_size\<close>
  elements, the two lengths add up to \<open>num_dates\<close>, the two sets are disjoint, their
  union is \<open>range(num_dates)\<close>, and for the strategy random the validation set is sorted
  ascending without duplicates.
\<close>

theorem validation_split_partition:
  assumes "0 \<le> val_size" and "val_size \<le> int num_dates"
    and "val \<in> {''first'', ''last'', ''random''}"
  shows "\<exists>train_set val_set.
       validation_split draw val val_size num_dates = Inr (train_set, val_set)
     \<and> int (length val_set) = val_size
     \<and> length train_set + length val_set = num_dates
     \<and> set train_set \<inter> set val_set = {}
     \<and> set train_set \<union> set val_set = set (py_range 0 (int num_dates))
     \<and> (val = ''random'' \<longrightarrow> sorted val_set \<and> distinct val_set)"
proof -
  consider "val = ''first''" | "val = ''last''" | "val = ''random''"
    using assms(3) by auto
  then show ?thesis
  proof cases
    case 1
    with validation_split_first [OF assms(1,2), of draw] show ?thesis by simp
  next
    case 2
    with validation_split_last [OF assms(1,2), of draw] show ?thesis by simp
  next
    case 3
    from validation_split_random [OF assms(1,2), of draw] obtain tr vs where
      "validation_split draw ''random'' val_size num_dates = Inr (tr, vs)"
      "int (length vs) = val_size" "length tr + length vs = num_dates"
      "set tr \<inter> set vs = {}" "set tr \<union> set vs = set (py_range 0 (int num_dates))"
      "sorted vs" "distinct vs" by blast
    with 3 show ?thesis by blast
  qed
qed

theorem validation_split_partition_witness:
  "\<exists>train_set val_set.
       validation_split (\<lambda>j. 0) ''random'' 2 3 = Inr (train_set, val_set)
     \<and> int (length val_set) = 2
     \<and> length train_set + length val_set = 3
     \<and> set train_set \<inter> set val_set = {}
     \<and> set train_set \<union> set val_set = set (py_range 0 3)
     \<and> sorted val_set \<and> distinct val_set"
  using validation_split_partition [of 2 3 "''random''" "\<lambda>j. 0"] by simp

text \<open>
  The claim as first written asks only \<open>val_size \<le> num_dates\<close>. With three dates, the
  strategy first and \<open>val_size = -1\<close> the validation set is empty and the training set
  is \<open>[-1, 0, 1, 2]\<close>: four indices, one of them outside \<open>range(3)\<close>.
\<close>

theorem validation_split_negative_size:
  "(-1 :: int) \<le> int 3
   \<and> validation_split first_draw ''first'' (-1) 3 = Inr ([-1, 0, 1, 2], [])
   \<and> int (length ([] :: int list)) \<noteq> -1
   \<and> length [-1, 0, 1, 2 :: int] + length ([] :: int list) \<noteq> 3
   \<and> (-1 :: int) \<in> set [-1, 0, 1, 2] \<union> set []
   \<and> (-1 :: int) \<notin> set (py_range 0 (int 3))"
proof -
  have "py_range (-1) (int 3) = [-1, 0, 1, 2]"
    by (simp add: py_range_def upto_rec1)
  moreover have "py_range 0 (-1) = []"
    by (simp add: py_range_def)
  ultimately have "validation_split first_draw ''first'' (-1) 3 = Inr ([-1, 0, 1, 2], [])"
    by (simp add: validation_split_def)
  then show ?thesis by (simp add: set_py_range)
qed

text \<open>
  Claim C9. With \<open>val_size > num_dates\<close> the strategy random raises (the draw from an
  emptied candidate list is an IndexError) and returns no split, while the strategies
  first and last raise nothing and return a validation set with an index outside
  \<open>range(num_dates)\<close>.
\<close>

theorem validation_split_oversized:
  assumes "int num_dates < val_size"
  shows "validation_split draw ''random'' val_size num_dates = Inl IndexError
     \<and> (\<exists>train_set val_set.
          validation_split draw ''first'' val_size num_dates = Inr (train_set, val_set)
          \<and> (\<exists>i \<in> set val_set. i \<notin> set (py_range 0 (int num_dates))))
     \<and> (\<exists>train_set val_set.
          validation_split draw ''last'' val_size num_dates = Inr (train_set, val_set)
          \<and> (\<exists>i \<in> set val_set. i \<notin> set (py_range 0 (int num_dates))))"
proof (intro conjI)
  have "length (py_range 0 (int num_dates)) < length [0..<nat val_size]"
    using assms by (simp add: length_py_range)
  from random_split_exhausted [OF this, of draw "[]"]
  show "validation_split draw ''random'' val_size num_dates = Inl IndexError"
    by (simp add: validation_split_def)
next
  have "int num_dates \<in> set (py_range 0 val_size)"
    using assms by (simp add: set_py_range)
  moreover have "int num_dates \<notin> set (py_range 0 (int num_dates))"
    by (simp add: set_py_range)
  ultimately show "\<exists>train_set val_set.
      validation_split draw ''first'' val_size num_dates = Inr (train_set, val_set)
      \<and> (\<exists>i \<in> set val_set. i \<notin> set (py_range 0 (int num_dates)))"
    by (auto simp: validation_split_def)
next
  have "int num_dates - val_size \<in> set (py_range (int num_dates - val_size) (int num_dates))"
    using assms by (simp add: set_py_range)
  moreover have "int num_dates - val_size \<notin> set (py_range 0 (int num_dates))"
    using assms by (simp add: set_py_range)
  ultimately show "\<exists>train_set val_set.
      validation_split draw ''last'' val_size num_dates = Inr (train_set, val_set)
      \<and> (\<exists>i \<in> set val_set. i \<notin> set (py_range 0 (int num_dates)))"
    by (auto simp: validation_split_def)
qed

theorem validation_split_oversized_witness:
  "int 2 < 3
   \<and> validation_split (\<lambda>j. j) ''random'' 3 2 = Inl IndexError
   \<and> validation_split (\<lambda>j. j) ''first'' 3 2 = Inr ([], [0, 1, 2])
   \<and> validation_split (\<lambda>j. j) ''last'' 3 2 = Inr ([], [-1, 0, 1])"
  using validation_split_oversized [of 2 3 "\<lambda>j. j"]
  by (simp add: validation_split_def py_range_def upto_rec1)

section \<open>Properties of the chunk partition\<close>

lemma py_slice_chunk:
  "0 \<le> cs \<Longrightarrow> py_slice xs (int i) (int i + cs) = take (nat cs) (drop i xs)"
proof -
  assume a: "0 \<le> cs"
  then have "nat (int i + cs) = i + nat cs" by (simp add: nat_add_distrib)
  with a show ?thesis
    by (auto simp: py_slice_def slice_index_def Let_def min_def)
qed

text \<open>
  The loop from any index \<open>i\<close> on, for a positive chunk size: it returns, and the chunks
  it appends cut the rest of the training set into pieces of \<open>chunk_size\<close> elements, the
  last one holding what remains.
\<close>

lemma chunk_loop_from:
  assumes "1 \<le> cs"
  shows "\<exists>chs. chunk_loop ts cs acc (int i) = Some (acc @ chs)
     \<and> concat chs = drop i ts
     \<and> (\<forall>c \<in> set (butlast chs). length c = nat cs)
     \<and> (chs \<noteq> [] \<longrightarrow> length (last chs) =
           (if (length ts - i) mod nat cs = 0 then nat cs else (length ts - i) mod nat cs))
     \<and> (chs = [] \<longleftrightarrow> length ts \<le> i)"
proof (induction "length ts - i" arbitrary: i acc rule: less_induct)
  case less
  show ?case
  proof (cases "i < length ts")
    case False
    then have "chunk_loop ts cs acc (int i) = Some acc"
      by (subst chunk_loop.simps) simp
    with False show ?thesis by simp
  next
    case True
    define n where "n = nat cs"
    have n: "0 < n" "int n = cs" using assms by (simp_all add: n_def)
    define c where "c = take n (drop i ts)"
    have step: "chunk_loop ts cs acc (int i) = chunk_loop ts cs (acc @ [c]) (int (i + n))"
      using True assms n by (subst chunk_loop.simps) (simp add: py_slice_chunk c_def n_def)
    have "length ts - (i + n) < length ts - i" using True n by simp
    from less [OF this, of "acc @ [c]"] obtain chs where
      r: "chunk_loop ts cs (acc @ [c]) (int (i + n)) = Some ((acc @ [c]) @ chs)"
      and cc: "concat chs = drop (i + n) ts"
      and bl: "\<forall>c \<in> set (butlast chs). length c = n"
      and la: "chs \<noteq> [] \<longrightarrow> length (last chs) =
           (if (length ts - (i + n)) mod n = 0 then n else (length ts - (i + n)) mod n)"
      and em: "chs = [] \<longleftrightarrow> length ts \<le> i + n"
      unfolding n_def by blast
    have 1: "chunk_loop ts cs acc (int i) = Some (acc @ (c # chs))"
      using step r by simp
    have 2: "concat (c # chs) = drop i ts"
    proof -
      have "drop (i + n) ts = drop n (drop i ts)" by (simp add: add.commute)
      with cc have "concat (c # chs) = take n (drop i ts) @ drop n (drop i ts)"
        by (simp only: concat.simps c_def)
      then show ?thesis by (simp only: append_take_drop_id)
    qed
    have 3: "\<forall>d \<in> set (butlast (c # chs)). length d = n"
      using bl em by (auto simp: c_def)
    have 4: "length (last (c # chs)) =
           (if (length ts - i) mod n = 0 then n else (length ts - i) mod n)"
    proof (cases "chs = []")
      case True
      with em have le: "length ts - i \<le> n" by simp
      have "length c = length ts - i" using le by (simp add: c_def)
      moreover have "0 < length ts - i" using \<open>i < length ts\<close> by simp
      ultimately show ?thesis using True le
        by (cases "length ts - i = n") auto
    next
      case False
      with em have "n \<le> length ts - i" by simp
      then have "(length ts - i) mod n = (length ts - (i + n)) mod n"
        by (simp add: le_mod_geq)
      with la False show ?thesis by simp
    qed
    have 5: "c # chs \<noteq> []" "\<not> length ts \<le> i" using True by simp_all
    show ?thesis
      apply (rule exI [of _ "c # chs"])
      using 1 2 3 4 5 unfolding n_def by simp
  qed
qed

lemma scenario_split:
  "validation_split draw ''first'' 5 20 =
     Inr ([5, 6, 7, 8, 9, 10, 11, 12, 13, 14, 15, 16, 17, 18, 19], [0, 1, 2, 3, 4])"
  by (simp add: validation_split_def py_range_def upto_rec1)

lemma scenario_chunks:
  "make_chunks [5, 6, 7, 8, 9, 10, 11, 12, 13, 14, 15, 16, 17, 18, 19] 5 =
     Some [[5, 6, 7, 8, 9], [10, 11, 12, 13, 14], [15, 16, 17, 18, 19]]"
  unfolding make_chunks_def
  apply (subst chunk_loop.simps, simp add: py_slice_def slice_index_def)
  apply (subst chunk_loop.simps, simp add: py_slice_def slice_index_def)
  apply (subst chunk_loop.simps, simp add: py_slice_def slice_index_def)
  apply (subst chunk_loop.simps, simp add: py_slice_def slice_index_def)
  done

text \<open>
  Claim C5. For every training set and every \<open>chunk_size \<ge> 1\<close> the chunk loop returns;
  the chunks concatenated in order are the training set, every chunk but the last has
  \<open>chunk_size\<close> elements, and the last has \<open>len(train_set) mod chunk_size\<close> elements, or
  \<open>chunk_size\<close> when that is zero. With 20 dates, a validation size of 5, the strategy
  first and a chunk size of 5, the validation set is 0 to 4, the training set 5 to 19
  and the chunks are 5 to 9, 10 to 14 and 15 to 19.
\<close>

theorem make_chunks_partition:
  "(1 \<le> chunk_size \<longrightarrow>
      (\<exists>chunks. make_chunks train_set chunk_size = Some chunks
         \<and> concat chunks = train_set
         \<and> (\<forall>c \<in> set (butlast chunks). int (length c) = chunk_size)
         \<and> (chunks \<noteq> [] \<longrightarrow> int (length (last chunks)) =
               (if int (length train_set) mod chunk_size = 0 then chunk_size
                else int (length train_set) mod chunk_size))))
   \<and> validation_split draw ''first'' 5 20 =
       Inr ([5, 6, 7, 8, 9, 10, 11, 12, 13, 14, 15, 16, 17, 18, 19], [0, 1, 2, 3, 4])
   \<and> make_chunks [5, 6, 7, 8, 9, 10, 11, 12, 13, 14, 15, 16, 17, 18, 19] 5 =
       Some [[5, 6, 7, 8, 9], [10, 11, 12, 13, 14], [15, 16, 17, 18, 19]]"
proof (intro conjI impI)
  assume cs: "1 \<le> chunk_size"
  from chunk_loop_from [OF cs, of train_set "[]" 0] obtain chs where
    r: "chunk_loop train_set chunk_size [] 0 = Some chs"
    and cc: "concat chs = train_set"
    and bl: "\<forall>c \<in> set (butlast chs). length c = nat chunk_size"
    and la: "chs \<noteq> [] \<longrightarrow> length (last chs) =
         (if length train_set mod nat chunk_size = 0 then nat chunk_size
          else length train_set mod nat chunk_size)"
    by auto
  have m: "int (length train_set mod nat chunk_size) = int (length train_set) mod chunk_size"
    using cs by (simp add: zmod_int)
  have bl': "\<forall>c \<in> set (butlast chs). int (length c) = chunk_size"
    using bl cs by simp
  have la': "chs \<noteq> [] \<longrightarrow> int (length (last chs)) =
         (if int (length train_set) mod chunk_size = 0 then chunk_size
          else int (length train_set) mod chunk_size)"
  proof
    assume "chs \<noteq> []"
    with la have "length (last chs) =
         (if length train_set mod nat chunk_size = 0 then nat chunk_size
          else length train_set mod nat chunk_size)" by simp
    then show "int (length (last chs)) =
         (if int (length train_set) mod chunk_size = 0 then chunk_size
          else int (length train_set) mod chunk_size)"
      using m cs by (auto split: if_splits)
  qed
  from r cc bl' la' show "\<exists>chunks. make_chunks train_set chunk_size = Some chunks
         \<and> concat chunks = train_set
         \<and> (\<forall>c \<in> set (butlast chunks). int (length c) = chunk_size)
         \<and> (chunks \<noteq> [] \<longrightarrow> int (length (last chunks)) =
               (if int (length train_set) mod chunk_size = 0 then chunk_size
                else int (length train_set) mod chunk_size))"
    by (simp add: make_chunks_def)
qed (rule scenario_split, rule scenario_chunks)

theorem make_chunks_partition_witness:
  "(1 :: int) \<le> 2
   \<and> make_chunks [7, 8, 9] 2 = Some [[7, 8], [9]]
   \<and> concat [[7, 8], [9 :: int]] = [7, 8, 9]
   \<and> butlast [[7, 8], [9 :: int]] = [[7, 8]]
   \<and> int (length [7, 8 :: int]) = 2
   \<and> int (length (last [[7, 8], [9 :: int]])) = int (length [7, 8, 9 :: int]) mod 2"
proof -
  from make_chunks_partition [of 2 "[7, 8, 9]" "\<lambda>j. 0"] obtain chunks where
    r: "make_chunks [7, 8, 9] 2 = Some chunks" and c: "concat chunks = [7, 8, 9]"
    and b: "\<forall>c \<in> set (butlast chunks). int (length c) = 2"
    and l: "chunks \<noteq> [] \<longrightarrow> int (length (last chunks)) = 1"
    by auto
  have e: "make_chunks [7, 8, 9] 2 = Some [[7, 8], [9]]"
    unfolding make_chunks_def
    apply (subst chunk_loop.simps, simp add: py_slice_def slice_index_def)
    apply (subst chunk_loop.simps, simp add: py_slice_def slice_index_def)
    apply (subst chunk_loop.simps, simp add: py_slice_def slice_index_def)
    done
  with r have "chunks = [[7, 8], [9]]" by simp
  with r c b l show ?thesis by simp
qed

section \<open>Properties of the configuration checks\<close>

lemma py_int_overflow: "py_int parse v = Inl OverflowError \<longleftrightarrow> infinite_float v"
proof (cases v)
  case (PyFloat f)
  then show ?thesis by (cases f) (simp_all add: infinite_float_def)
qed (simp_all add: infinite_float_def split: option.splits)












section \<open>Properties of save\_model\<close>

lemma save_model_returns:
  assumes "a < length (store w)"
  shows "save_model native deepcopy open_wb pickle a file_name w = Inr w' \<longleftrightarrow>
     (\<exists>k c cp c'. model (store w ! a) = Some k
        \<and> native k (file_name @ ''.keras'') = Inr c
        \<and> deepcopy (store w ! a) = Inr cp
        \<and> open_wb (file_name @ ''.pkl'') = None
        \<and> pickle (cp\<lparr>model := None\<rparr>) = Inr c'
        \<and> w' = \<lparr>store = store w @ [cp\<lparr>model := None\<rparr>],
                 files = (files w)(file_name @ ''.keras'' \<mapsto> c, file_name @ ''.pkl'' \<mapsto> c')\<rparr>)"
  using assms
  by (auto simp: save_model_def Let_def nth_append split: option.splits sum.splits)

lemma save_model_raises:
  assumes "a < length (store w)"
    and "save_model native deepcopy open_wb pickle a file_name w = Inl (e, s)"
  shows "s ! a = store w ! a \<and> take (length (store w)) s = store w"
  using assms
  by (auto simp: save_model_def Let_def nth_append split: option.splits sum.splits)

text \<open>
  Claim C10. Whenever \<^verbatim>\<open>save_model\<close> returns, the object at the address passed is
  what it was, it still has its model and its other state, and so is every object that
  existed before; the one new object is the deep copy with \<open>model\<close> set to
  \<^verbatim>\<open>None\<close>; the native file holds what the model's \<^verbatim>\<open>save\<close> wrote and the pickle
  file the pickled copy. It returns exactly when the instance has a model and the
  model's \<^verbatim>\<open>save\<close>, the deep copy, the opening of the pickle file and the dump all
  return. When it raises instead, the objects that existed before are unchanged too.
\<close>

theorem save_model_frame:
  assumes "a < length (store w)"
  shows "(\<forall>w'. save_model native deepcopy open_wb pickle a file_name w = Inr w' \<longrightarrow>
         store w' ! a = store w ! a
       \<and> model (store w' ! a) \<noteq> None
       \<and> other (store w' ! a) = other (store w ! a)
       \<and> take (length (store w)) (store w') = store w
       \<and> (\<exists>k c cp c'. model (store w ! a) = Some k
            \<and> native k (file_name @ ''.keras'') = Inr c
            \<and> deepcopy (store w ! a) = Inr cp
            \<and> pickle (cp\<lparr>model := None\<rparr>) = Inr c'
            \<and> store w' = store w @ [cp\<lparr>model := None\<rparr>]
            \<and> files w' = (files w)(file_name @ ''.keras'' \<mapsto> c, file_name @ ''.pkl'' \<mapsto> c')))
   \<and> ((\<exists>w'. save_model native deepcopy open_wb pickle a file_name w = Inr w') \<longleftrightarrow>
        (\<exists>k c cp c'. model (store w ! a) = Some k
            \<and> native k (file_name @ ''.keras'') = Inr c
            \<and> deepcopy (store w ! a) = Inr cp
            \<and> open_wb (file_name @ ''.pkl'') = None
            \<and> pickle (cp\<lparr>model := None\<rparr>) = Inr c'))
   \<and> (\<forall>e s. save_model native deepcopy open_wb pickle a file_name w = Inl (e, s) \<longrightarrow>
         s ! a = store w ! a \<and> take (length (store w)) s = store w)"
proof (intro conjI allI impI)
  fix w'
  assume r: "save_model native deepcopy open_wb pickle a file_name w = Inr w'"
  then obtain k c cp c' where f: "model (store w ! a) = Some k"
    "native k (file_name @ ''.keras'') = Inr c" "deepcopy (store w ! a) = Inr cp"
    "pickle (cp\<lparr>model := None\<rparr>) = Inr c'"
    and w': "w' = \<lparr>store = store w @ [cp\<lparr>model := None\<rparr>],
        files = (files w)(file_name @ ''.keras'' \<mapsto> c, file_name @ ''.pkl'' \<mapsto> c')\<rparr>"
    unfolding save_model_returns [OF assms] by blast
  show "store w' ! a = store w ! a" using assms by (simp add: w' nth_append)
  then show "model (store w' ! a) \<noteq> None" "other (store w' ! a) = other (store w ! a)"
    using f(1) by simp_all
  show "take (length (store w)) (store w') = store w" by (simp add: w')
  show "\<exists>k c cp c'. model (store w ! a) = Some k
            \<and> native k (file_name @ ''.keras'') = Inr c
            \<and> deepcopy (store w ! a) = Inr cp
            \<and> pickle (cp\<lparr>model := None\<rparr>) = Inr c'
            \<and> store w' = store w @ [cp\<lparr>model := None\<rparr>]
            \<and> files w' = (files w)(file_name @ ''.keras'' \<mapsto> c, file_name @ ''.pkl'' \<mapsto> c')"
    using f by (simp add: w')
next
  show "(\<exists>w'. save_model native deepcopy open_wb pickle a file_name w = Inr w') \<longleftrightarrow>
        (\<exists>k c cp c'. model (store w ! a) = Some k
            \<and> native k (file_name @ ''.keras'') = Inr c
            \<and> deepcopy (store w ! a) = Inr cp
            \<and> open_wb (file_name @ ''.pkl'') = None
            \<and> pickle (cp\<lparr>model := None\<rparr>) = Inr c')"
    unfolding save_model_returns [OF assms] by blast
next
  fix e s
  assume "save_model native deepcopy open_wb pickle a file_name w = Inl (e, s)"
  from save_model_raises [OF assms this]
  show "s ! a = store w ! a" "take (length (store w)) s = store w" by simp_all
qed

theorem save_model_frame_witness:
  "save_model (\<lambda>k name. Inr k) Inr (\<lambda>name. None) (\<lambda>i. Inr (other i)) 0 ''sel''
       \<lparr>store = [\<lparr>model = Some ''weights'', other = ''scaler''\<rparr>], files = Map.empty\<rparr> =
     Inr \<lparr>store = [\<lparr>model = Some ''weights'', other = ''scaler''\<rparr>,
                   \<lparr>model = None, other = ''scaler''\<rparr>],
          files = [''sel.keras'' \<mapsto> ''weights'', ''sel.pkl'' \<mapsto> ''scaler'']\<rparr>
   \<and> save_model (\<lambda>k name. Inr k) (\<lambda>i. Inl TypeError) (\<lambda>name. None) (\<lambda>i. Inr (other i)) 0 ''sel''
       \<lparr>store = [\<lparr>model = Some ''weights'', other = ''scaler''\<rparr>], files = Map.empty\<rparr> =
     Inl (TypeError, [\<lparr>model = Some ''weights'', other = ''scaler''\<rparr>])"
proof -
  let ?w = "\<lparr>store = [\<lparr>model = Some ''weights'', other = ''scaler''\<rparr>], files = Map.empty\<rparr>
              :: (string, string, string) world"
  have h: "0 < length (store ?w)" by simp
  have ok: "\<exists>k c cp c'. model (store ?w ! 0) = Some k
      \<and> (Inr k :: error + string) = Inr c
      \<and> (Inr (store ?w ! 0) :: error + (string, string) model_instance) = Inr cp
      \<and> (None :: error option) = None
      \<and> (Inr (other (cp\<lparr>model := None\<rparr>)) :: error + string) = Inr c'"
    by simp
  from save_model_frame [OF h, of "\<lambda>k name. Inr k" Inr "\<lambda>name. None" "\<lambda>i. Inr (other i)" "''sel''",
      THEN conjunct2, THEN conjunct1] ok
  obtain w' where r: "save_model (\<lambda>k name. Inr k) Inr (\<lambda>name. None) (\<lambda>i. Inr (other i)) 0 ''sel'' ?w
      = Inr w'" by blast
  from save_model_frame [OF h, of "\<lambda>k name. Inr k" Inr "\<lambda>name. None" "\<lambda>i. Inr (other i)" "''sel''",
      THEN conjunct1] r
  have "store w' = store ?w @ [(store ?w ! 0)\<lparr>model := None\<rparr>]
      \<and> files w' = (files ?w)(''sel'' @ ''.keras'' \<mapsto> ''weights'', ''sel'' @ ''.pkl'' \<mapsto> ''scaler'')"
    by auto
  then have "w' = \<lparr>store = [\<lparr>model = Some ''weights'', other = ''scaler''\<rparr>,
                   \<lparr>model = None, other = ''scaler''\<rparr>],
          files = [''sel.keras'' \<mapsto> ''weights'', ''sel.pkl'' \<mapsto> ''scaler'']\<rparr>"
    by (cases w') simp
  with r show ?thesis by (simp add: save_model_def)
qed

section \<open>Properties of the online training loop\<close>

lemma trace_log_event [simp]: "trace (log_event e st) = trace st @ [e]"
  and history_log_event [simp]: "history (log_event e st) = history st"
  and selector_log_event [simp]: "selector (log_event e st) = selector st"
  and shared_log_event [simp]: "shared_chunk (log_event e st) = shared_chunk st"
  and first_log_event [simp]: "first_chunk (log_event e st) = first_chunk st"
  by (simp_all add: log_event_def)

lemma next_chunk_index:
  "chunk < n \<Longrightarrow> (if int chunk < int n - 1 then chunk + 1 else 0) = next_index n chunk"
proof (cases "Suc chunk < n")
  case True
  then show ?thesis by (simp add: next_index_def)
next
  case False
  assume "chunk < n"
  with False have "Suc chunk = n" by simp
  then show ?thesis by (auto simp: next_index_def)
qed

lemma next_index_less: "chunk < n \<Longrightarrow> next_index n chunk < n"
  by (simp add: next_index_def)

text \<open>
  One iteration of a run whose extractor returns, started from a state that is ready
  for it: it returns, logs the events of the schedule, makes the one fit call on the
  batch of its chunk and leaves the dictionary with the batch of the next chunk.
\<close>

lemma iteration_ready:
  assumes succ: "\<forall>c<length chunks. process_chunk (chunks ! c) = Inr (P c, T c)"
    and c: "chunk < length chunks" and r: "ready P T loop chunk st"
  shows "\<exists>st'. iteration process_chunk fit val_data chunks (sched loop chunk) loop chunk st = Inr st'
     \<and> \<not> first_chunk st'
     \<and> shared_chunk st' ''p'' = Some (P (next_index (length chunks) chunk))
     \<and> shared_chunk st' ''t'' = Some (T (next_index (length chunks) chunk))
     \<and> trace st' = trace st @ iteration_events P T (length chunks) sched (loop, chunk)
     \<and> history st' = history st @ [snd (fit (selector st) (P chunk) (T chunk) val_data)]
     \<and> selector st' = fst (fit (selector st) (P chunk) (T chunk) val_data)"
proof -
  let ?n = "length chunks"
  let ?nx = "next_index ?n chunk"
  have nx: "?nx < ?n" using c by (rule next_index_less)
  have w: "process_chunk (chunks ! ?nx) = Inr (P ?nx, T ?nx)" using succ nx by blast
  have b: "process_chunk (chunks ! chunk) = Inr (P chunk, T chunk)" using succ c by blast
  obtain st1 where cb: "current_batch process_chunk chunks chunk st = Inr (P chunk, T chunk, st1)"
    and t1: "trace st1 = trace st @ [obtain_event P T loop chunk]"
    and f1: "\<not> first_chunk st1" and s1: "selector st1 = selector st"
    and h1: "history st1 = history st"
    using r b c by (auto simp: current_batch_def ready_def obtain_event_def split: if_splits)
  obtain m hist where fit: "fit (selector st) (P chunk) (T chunk) val_data = (m, hist)"
    by (cases "fit (selector st) (P chunk) (T chunk) val_data")
  show ?thesis
    using cb nx w t1 f1 s1 h1 fit c
    by (cases "sched loop chunk")
       (simp_all add: iteration_def next_chunk_index Let_def iteration_events_def)
qed

lemma ready_next:
  assumes "chunk < n" and "\<not> first_chunk st"
    and "shared_chunk st ''p'' = Some (P (next_index n chunk))"
    and "shared_chunk st ''t'' = Some (T (next_index n chunk))"
  shows "if Suc chunk < n then ready P T loop (Suc chunk) st else ready P T (Suc loop) 0 st"
proof (cases "Suc chunk < n")
  case True
  then have "next_index n chunk = Suc chunk" by (simp add: next_index_def)
  with assms True show ?thesis by (simp add: ready_def)
next
  case False
  with assms(1) have "Suc chunk = n" by simp
  then have "next_index n chunk = 0" by (auto simp: next_index_def)
  with assms False show ?thesis by (simp add: ready_def)
qed

text \<open>The inner loop from chunk \<open>c\<close> on, and the outer loop from loop \<open>l\<close> on.\<close>

lemma inner_loop_ready:
  assumes succ: "\<forall>c<length chunks. process_chunk (chunks ! c) = Inr (P c, T c)"
  shows "c \<le> length chunks \<Longrightarrow> (c < length chunks \<longrightarrow> ready P T l c st) \<Longrightarrow>
     \<exists>st'. inner_loop process_chunk fit val_data chunks sched l [c..<length chunks] st = Inr st'
       \<and> (c < length chunks \<longrightarrow> ready P T (Suc l) 0 st')
       \<and> (c = length chunks \<longrightarrow> st' = st)
       \<and> trace st' = trace st
            @ concat (map (\<lambda>c. iteration_events P T (length chunks) sched (l, c)) [c..<length chunks])
       \<and> length (history st') = length (history st) + (length chunks - c)"
proof (induction "length chunks - c" arbitrary: c st)
  case 0
  then show ?case by simp
next
  case (Suc k)
  then have c: "c < length chunks" and r: "ready P T l c st" by simp_all
  from iteration_ready [OF succ c r, of fit val_data sched] obtain st1 where
    it: "iteration process_chunk fit val_data chunks (sched l c) l c st = Inr st1"
    and f1: "\<not> first_chunk st1"
    and p1: "shared_chunk st1 ''p'' = Some (P (next_index (length chunks) c))"
    and t1: "shared_chunk st1 ''t'' = Some (T (next_index (length chunks) c))"
    and tr1: "trace st1 = trace st @ iteration_events P T (length chunks) sched (l, c)"
    and h1: "history st1 = history st @ [snd (fit (selector st) (P c) (T c) val_data)]"
    by blast
  have rn: "if Suc c < length chunks then ready P T l (Suc c) st1 else ready P T (Suc l) 0 st1"
    using c f1 p1 t1 by (rule ready_next)
  have k: "k = length chunks - Suc c" using Suc.hyps(2) by simp
  have le: "Suc c \<le> length chunks" using c by simp
  have pre: "Suc c < length chunks \<longrightarrow> ready P T l (Suc c) st1" using rn by simp
  from Suc.hyps(1) [OF k le pre] obtain st' where
    il: "inner_loop process_chunk fit val_data chunks sched l [Suc c..<length chunks] st1 = Inr st'"
    and r': "Suc c < length chunks \<longrightarrow> ready P T (Suc l) 0 st'"
    and e': "Suc c = length chunks \<longrightarrow> st' = st1"
    and tr': "trace st' = trace st1
         @ concat (map (\<lambda>c. iteration_events P T (length chunks) sched (l, c)) [Suc c..<length chunks])"
    and h': "length (history st') = length (history st1) + (length chunks - Suc c)"
    by blast
  have up: "[c..<length chunks] = c # [Suc c..<length chunks]"
    using c by (rule upt_conv_Cons)
  have 1: "inner_loop process_chunk fit val_data chunks sched l [c..<length chunks] st = Inr st'"
    using it il by (simp add: up)
  have 2: "ready P T (Suc l) 0 st'"
  proof (cases "Suc c < length chunks")
    case True
    with r' show ?thesis by simp
  next
    case False
    with le have "Suc c = length chunks" by simp
    with e' rn show ?thesis by simp
  qed
  have 3: "trace st' = trace st
      @ concat (map (\<lambda>c. iteration_events P T (length chunks) sched (l, c)) [c..<length chunks])"
    using tr' tr1 by (simp add: up)
  have 4: "length (history st') = length (history st) + (length chunks - c)"
    using h' h1 c by simp
  from 1 2 3 4 c show ?case by blast
qed

lemma concat_product:
  "concat (map f (List.product ls cs)) = concat (map (\<lambda>l. concat (map (\<lambda>c. f (l, c)) cs)) ls)"
  by (induction ls) (simp_all add: o_def)

lemma outer_loop_ready:
  assumes succ: "\<forall>c<length chunks. process_chunk (chunks ! c) = Inr (P c, T c)"
    and ne: "chunks \<noteq> []"
  shows "l \<le> L \<Longrightarrow> ready P T l 0 st \<Longrightarrow>
     \<exists>st'. outer_loop process_chunk fit val_data chunks sched [l..<L] st = Inr st'
       \<and> trace st' = trace st
            @ concat (map (iteration_events P T (length chunks) sched)
                (List.product [l..<L] [0..<length chunks]))
       \<and> length (history st') = length (history st) + (L - l) * length chunks"
proof (induction "L - l" arbitrary: l st)
  case 0
  then show ?case by simp
next
  case (Suc k)
  then have l: "l < L" by simp
  have n: "0 < length chunks" using ne by simp
  from inner_loop_ready [OF succ, of 0 l st fit val_data sched] Suc.prems(2) n obtain st1 where
    il: "inner_loop process_chunk fit val_data chunks sched l [0..<length chunks] st = Inr st1"
    and r1: "ready P T (Suc l) 0 st1"
    and tr1: "trace st1 = trace st
         @ concat (map (\<lambda>c. iteration_events P T (length chunks) sched (l, c)) [0..<length chunks])"
    and h1: "length (history st1) = length (history st) + length chunks"
    by auto
  have k: "k = L - Suc l" using Suc.hyps(2) by simp
  have le: "Suc l \<le> L" using l by simp
  from Suc.hyps(1) [OF k le r1] obtain st' where
    ol: "outer_loop process_chunk fit val_data chunks sched [Suc l..<L] st1 = Inr st'"
    and tr': "trace st' = trace st1
         @ concat (map (iteration_events P T (length chunks) sched)
             (List.product [Suc l..<L] [0..<length chunks]))"
    and h': "length (history st') = length (history st1) + (L - Suc l) * length chunks"
    by blast
  have up: "[l..<L] = l # [Suc l..<L]" using l by (rule upt_conv_Cons)
  have 1: "outer_loop process_chunk fit val_data chunks sched [l..<L] st = Inr st'"
    using il ol by (simp add: up)
  have 2: "trace st' = trace st
      @ concat (map (iteration_events P T (length chunks) sched)
          (List.product [l..<L] [0..<length chunks]))"
    using tr' tr1 by (simp add: up o_def)
  have "L - l = Suc (L - Suc l)" using l by simp
  then have 3: "length (history st') = length (history st) + (L - l) * length chunks"
    using h' h1 by simp
  from 1 2 3 show ?case by blast
qed

text \<open>
  The whole run for an extractor that returns on every chunk: it returns, and its log
  is the schedule of the specification, iteration by iteration.
\<close>

lemma online_training_trace:
  assumes succ: "\<forall>c<length chunks. process_chunk (chunks ! c) = Inr (P c, T c)"
    and ne: "chunks \<noteq> []"
  shows "\<exists>st. online_training process_chunk fit val_data chunks sched loops sel = Inr st
       \<and> trace st = concat (map (iteration_events P T (length chunks) sched)
                (List.product [0..<nat loops] [0..<length chunks]))
       \<and> length (history st) = nat loops * length chunks"
proof -
  let ?st = "\<lparr>first_chunk = True, shared_chunk = Map.empty, selector = sel,
      history = [], trace = []\<rparr> :: ('a, 'b, 'c) state"
  have "ready P T 0 0 ?st" by (simp add: ready_def)
  from outer_loop_ready [OF succ ne _ this, of "nat loops" fit val_data sched]
  show ?thesis by (simp add: online_training_def)
qed

lemma main_flow_iteration_events:
  "filter main_flow (iteration_events P T n sched lc) = main_flow_events P T n lc"
proof (cases lc)
  case (Pair l c)
  then show ?thesis
    by (cases "sched l c")
       (simp_all add: iteration_events_def main_flow_events_def obtain_event_def)
qed

lemma slot_event_iteration_events:
  "filter slot_event (iteration_events P T n sched lc) = handoff_events P T n lc"
proof (cases lc)
  case (Pair l c)
  then show ?thesis
    by (cases "sched l c")
       (simp_all add: iteration_events_def handoff_events_def obtain_event_def)
qed

lemma filter_run:
  "filter q (concat (map f lcs)) = concat (map (\<lambda>lc. filter q (f lc)) lcs)"
  by (induction lcs) simp_all

text \<open>
  The main flow of any run, iteration by iteration: what one iteration logs when it
  returns, then the inner loop, the outer loop and the whole run, each up to the
  iteration at which it raised.
\<close>

lemma schedule_shape_append:
  "schedule_shape n (xs @ ys) = schedule_shape n xs @ schedule_shape n ys"
  by (simp add: schedule_shape_def)

lemma prefetched_shape: "prefetched (main_flow_shape es) = prefetched es"
  by (induction es rule: prefetched.induct) (simp_all add: main_flow_shape_def)

lemma fit_calls_shape: "fit_calls (main_flow_shape es) = fit_calls es"
  by (induction es rule: fit_calls.induct) (simp_all add: main_flow_shape_def)

lemma prefetched_schedule_shape:
  "prefetched (schedule_shape n lcs) = map (\<lambda>(l, c). next_index n c) lcs"
  by (induction lcs)
     (auto simp: schedule_shape_def main_flow_events_def obtain_event_def)

lemma fit_calls_schedule_shape: "fit_calls (schedule_shape n lcs) = lcs"
  by (induction lcs)
     (auto simp: schedule_shape_def main_flow_events_def obtain_event_def)

lemma iteration_shape:
  assumes c: "chunk < length chunks"
    and f: "first_chunk st \<longleftrightarrow> loop = 0 \<and> chunk = 0"
  shows "case iteration process_chunk fit val_data chunks tm loop chunk st of
       Inl (e, s) \<Rightarrow> s = st
     | Inr st' \<Rightarrow> \<not> first_chunk st'
         \<and> main_flow_shape (trace st') =
             main_flow_shape (trace st) @ schedule_shape (length chunks) [(loop, chunk)]
         \<and> length (history st') = Suc (length (history st))"
proof (cases "current_batch process_chunk chunks chunk st")
  case (Inl e)
  then show ?thesis by (simp add: iteration_def)
next
  case (Inr b)
  then obtain p t st1 where cb: "current_batch process_chunk chunks chunk st = Inr (p, t, st1)"
    by (cases b) auto
  have nx: "next_index (length chunks) chunk < length chunks"
    using c by (rule next_index_less)
  have st1: "\<not> first_chunk st1 \<and> history st1 = history st
      \<and> main_flow_shape (trace st1) = main_flow_shape (trace st)
          @ [obtain_event (\<lambda>c. ()) (\<lambda>c. ()) loop chunk]"
    using cb f
    by (auto simp: current_batch_def obtain_event_def main_flow_shape_def
          split: if_splits sum.splits option.splits)
  obtain m hist where fit: "fit (selector st1) p t val_data = (m, hist)"
    by (cases "fit (selector st1) p t val_data")
  show ?thesis
    using cb nx st1 fit c
    by (cases tm; cases "process_chunk (chunks ! next_index (length chunks) chunk)")
       (auto simp: iteration_def next_chunk_index Let_def main_flow_shape_def
          schedule_shape_def main_flow_events_def)
qed



lemma inner_loop_shape:
  "c \<le> length chunks \<Longrightarrow> (c < length chunks \<longrightarrow> (first_chunk st \<longleftrightarrow> l = 0 \<and> c = 0)) \<Longrightarrow>
   r = inner_loop process_chunk fit val_data chunks sched l [c..<length chunks] st \<Longrightarrow>
   \<exists>k\<le>length chunks - c.
       main_flow_shape (trace (result_state r)) = main_flow_shape (trace st)
         @ schedule_shape (length chunks) (map (Pair l) (take k [c..<length chunks]))
     \<and> length (history (result_state r)) = length (history st) + k
     \<and> (result_error r = None \<longrightarrow> k = length chunks - c
          \<and> (c < length chunks \<longrightarrow> \<not> first_chunk (result_state r))
          \<and> (c = length chunks \<longrightarrow> result_state r = st))"
proof (induction "length chunks - c" arbitrary: c st r)
  case 0
  then have c: "c = length chunks" by simp
  with 0 have r: "r = Inr st" by simp
  have s: "result_state r = st" by (simp add: r result_state_def)
  have 1: "(0 :: nat) \<le> length chunks - c" by simp
  have 2: "main_flow_shape (trace (result_state r)) = main_flow_shape (trace st)
      @ schedule_shape (length chunks) (map (Pair l) (take 0 [c..<length chunks]))"
    by (simp add: s schedule_shape_def)
  have 3: "length (history (result_state r)) = length (history st) + 0"
    by (simp add: s)
  have 4: "result_error r = None \<longrightarrow> 0 = length chunks - c
      \<and> (c < length chunks \<longrightarrow> \<not> first_chunk (result_state r))
      \<and> (c = length chunks \<longrightarrow> result_state r = st)"
    by (simp add: s c)
  show ?case
    apply (rule exI [of _ 0])
    apply (intro conjI)
       apply (rule 1)
      apply (rule 2)
     apply (rule 3)
    apply (rule 4)
    done
next
  case (Suc d)
  then have c: "c < length chunks" and f: "first_chunk st \<longleftrightarrow> l = 0 \<and> c = 0" by simp_all
  have up: "[c..<length chunks] = c # [Suc c..<length chunks]"
    using c by (rule upt_conv_Cons)
  note it = iteration_shape [OF c f, of process_chunk fit val_data "sched l c"]
  show ?case
  proof (cases "iteration process_chunk fit val_data chunks (sched l c) l c st")
    case (Inl x)
    then obtain e where x: "x = (e, st)" using it by (cases x) simp
    with Inl Suc.prems(3) have "r = Inl (e, st)" by (simp add: up)
    then show ?thesis
      by (intro exI [of _ 0]) (simp add: result_state_def result_error_def schedule_shape_def)
  next
    case (Inr st1)
    with it have f1: "\<not> first_chunk st1"
      and s1: "main_flow_shape (trace st1) =
          main_flow_shape (trace st) @ schedule_shape (length chunks) [(l, c)]"
      and h1: "length (history st1) = Suc (length (history st))" by simp_all
    have r: "r = inner_loop process_chunk fit val_data chunks sched l [Suc c..<length chunks] st1"
      using Inr Suc.prems(3) by (simp add: up)
    have d: "d = length chunks - Suc c" using Suc.hyps(2) by simp
    have le: "Suc c \<le> length chunks" using c by simp
    have pre: "Suc c < length chunks \<longrightarrow> (first_chunk st1 \<longleftrightarrow> l = 0 \<and> Suc c = 0)"
      using f1 by simp
    from Suc.hyps(1) [OF d le pre r] obtain k where
      ih: "k \<le> length chunks - Suc c
      \<and> main_flow_shape (trace (result_state r)) = main_flow_shape (trace st1)
         @ schedule_shape (length chunks) (map (Pair l) (take k [Suc c..<length chunks]))
      \<and> length (history (result_state r)) = length (history st1) + k
      \<and> (result_error r = None \<longrightarrow> k = length chunks - Suc c
          \<and> (Suc c < length chunks \<longrightarrow> \<not> first_chunk (result_state r))
          \<and> (Suc c = length chunks \<longrightarrow> result_state r = st1))" ..
    note k = ih [THEN conjunct1]
    note sk = ih [THEN conjunct2, THEN conjunct1]
    note hk = ih [THEN conjunct2, THEN conjunct2, THEN conjunct1]
    note rk = ih [THEN conjunct2, THEN conjunct2, THEN conjunct2]
    have 1: "Suc k \<le> length chunks - c" using k c by simp
    have 2: "main_flow_shape (trace (result_state r)) = main_flow_shape (trace st)
         @ schedule_shape (length chunks) (map (Pair l) (take (Suc k) [c..<length chunks]))"
    proof -
      have "take (Suc k) [c..<length chunks] = c # take k [Suc c..<length chunks]"
        by (simp add: up)
      then have "schedule_shape (length chunks) (map (Pair l) (take (Suc k) [c..<length chunks]))
          = schedule_shape (length chunks) [(l, c)]
            @ schedule_shape (length chunks) (map (Pair l) (take k [Suc c..<length chunks]))"
        by (simp add: schedule_shape_def)
      with sk s1 show ?thesis by simp
    qed
    have 3: "length (history (result_state r)) = length (history st) + Suc k"
      using hk h1 by simp
    have 4: "result_error r = None \<longrightarrow> Suc k = length chunks - c
          \<and> (c < length chunks \<longrightarrow> \<not> first_chunk (result_state r))
          \<and> (c = length chunks \<longrightarrow> result_state r = st)"
    proof
      assume "result_error r = None"
      with rk have a: "k = length chunks - Suc c"
        and b: "Suc c < length chunks \<longrightarrow> \<not> first_chunk (result_state r)"
        and e: "Suc c = length chunks \<longrightarrow> result_state r = st1" by simp_all
      have "\<not> first_chunk (result_state r)"
      proof (cases "Suc c < length chunks")
        case True
        with b show ?thesis by simp
      next
        case False
        with le have "Suc c = length chunks" by simp
        with e f1 show ?thesis by simp
      qed
      with a c show "Suc k = length chunks - c
          \<and> (c < length chunks \<longrightarrow> \<not> first_chunk (result_state r))
          \<and> (c = length chunks \<longrightarrow> result_state r = st)" by simp
    qed
    show ?thesis
      apply (rule exI [of _ "Suc k"])
      apply (intro conjI)
         apply (rule 1)
        apply (rule 2)
       apply (rule 3)
      apply (rule 4)
      done
  qed
qed


lemma take_product_inner:
  "k \<le> length cs \<Longrightarrow> take k (List.product (l # ls) cs) = map (Pair l) (take k cs)"
  by (simp add: take_map)

lemma take_product_outer:
  "take (length cs + k) (List.product (l # ls) cs) = map (Pair l) cs @ take k (List.product ls cs)"
  by simp

lemma outer_loop_shape:
  assumes ne: "chunks \<noteq> []"
  shows "l \<le> L \<Longrightarrow> (l < L \<longrightarrow> (first_chunk st \<longleftrightarrow> l = 0)) \<Longrightarrow>
   r = outer_loop process_chunk fit val_data chunks sched [l..<L] st \<Longrightarrow>
   \<exists>k. k \<le> (L - l) * length chunks
     \<and> main_flow_shape (trace (result_state r)) = main_flow_shape (trace st)
         @ schedule_shape (length chunks) (take k (List.product [l..<L] [0..<length chunks]))
     \<and> length (history (result_state r)) = length (history st) + k
     \<and> (result_error r = None \<longrightarrow> k = (L - l) * length chunks)"
proof (induction "L - l" arbitrary: l st r)
  case 0
  then have "[l..<L] = []" by simp
  with 0 have r: "r = Inr st" by simp
  have s: "result_state r = st" by (simp add: r result_state_def)
  have 1: "(0 :: nat) \<le> (L - l) * length chunks" by simp
  have 2: "main_flow_shape (trace (result_state r)) = main_flow_shape (trace st)
      @ schedule_shape (length chunks) (take 0 (List.product [l..<L] [0..<length chunks]))"
    by (simp add: s schedule_shape_def)
  have 3: "length (history (result_state r)) = length (history st) + 0" by (simp add: s)
  have 4: "result_error r = None \<longrightarrow> 0 = (L - l) * length chunks"
    using "0.hyps" by simp
  show ?case
    apply (rule exI [of _ 0])
    apply (intro conjI)
       apply (rule 1)
      apply (rule 2)
     apply (rule 3)
    apply (rule 4)
    done
next
  case (Suc d)
  let ?n = "length chunks"
  have l: "l < L" using Suc.hyps(2) by simp
  then have f: "first_chunk st \<longleftrightarrow> l = 0" using Suc.prems(2) by simp
  have up: "[l..<L] = l # [Suc l..<L]" using l by (rule upt_conv_Cons)
  have n: "0 < ?n" using ne by simp
  define ri where "ri = inner_loop process_chunk fit val_data chunks sched l [0..<?n] st"
  have pre0: "0 < ?n \<longrightarrow> (first_chunk st \<longleftrightarrow> l = 0 \<and> (0 :: nat) = 0)" using f by simp
  have le0: "0 \<le> ?n" by simp
  from inner_loop_shape [OF le0 pre0 ri_def] obtain k1 where
    ih1: "k1 \<le> ?n - 0
      \<and> main_flow_shape (trace (result_state ri)) = main_flow_shape (trace st)
         @ schedule_shape ?n (map (Pair l) (take k1 [0..<?n]))
      \<and> length (history (result_state ri)) = length (history st) + k1
      \<and> (result_error ri = None \<longrightarrow> k1 = ?n - 0
          \<and> (0 < ?n \<longrightarrow> \<not> first_chunk (result_state ri))
          \<and> (0 = ?n \<longrightarrow> result_state ri = st))" ..
  note k1 = ih1 [THEN conjunct1]
  note s1 = ih1 [THEN conjunct2, THEN conjunct1]
  note h1 = ih1 [THEN conjunct2, THEN conjunct2, THEN conjunct1]
  note r1 = ih1 [THEN conjunct2, THEN conjunct2, THEN conjunct2]
  show ?case
  proof (cases ri)
    case (Inl x)
    have r: "r = Inl x" using Inl Suc.prems(3) by (simp add: up ri_def)
    have rs: "result_state r = result_state ri" "result_error r \<noteq> None"
      using r Inl by (simp_all add: result_state_def result_error_def split: prod.splits)
    have tk: "take k1 (List.product [l..<L] [0..<?n]) = map (Pair l) (take k1 [0..<?n])"
      using k1 unfolding up by (intro take_product_inner) simp
    have 1: "k1 \<le> (L - l) * ?n"
    proof -
      have "0 < L - l" using l by simp
      then have b: "?n \<le> (L - l) * ?n" by (cases "L - l") simp_all
      have a: "k1 \<le> ?n" using k1 by simp
      from a b show ?thesis by (rule order_trans)
    qed
    have 2: "main_flow_shape (trace (result_state r)) = main_flow_shape (trace st)
        @ schedule_shape ?n (take k1 (List.product [l..<L] [0..<?n]))"
      using s1 by (simp only: rs tk)
    have 3: "length (history (result_state r)) = length (history st) + k1"
      using h1 by (simp only: rs)
    have 4: "result_error r = None \<longrightarrow> k1 = (L - l) * ?n" using rs(2) by auto
    show ?thesis
      apply (rule exI [of _ k1])
      apply (intro conjI)
         apply (rule 1)
        apply (rule 2)
       apply (rule 3)
      apply (rule 4)
      done
  next
    case (Inr st1)
    then have e: "result_error ri = None" and rs1: "result_state ri = st1"
      by (simp_all add: result_error_def result_state_def)
    from r1 e n have k1n: "k1 = ?n" and f1: "\<not> first_chunk st1" using rs1 by simp_all
    have r: "r = outer_loop process_chunk fit val_data chunks sched [Suc l..<L] st1"
      using Inr Suc.prems(3) by (simp add: up ri_def)
    have d: "d = L - Suc l" using Suc.hyps(2) by simp
    have le: "Suc l \<le> L" using l by simp
    have pre: "Suc l < L \<longrightarrow> (first_chunk st1 \<longleftrightarrow> Suc l = 0)" using f1 by simp
    from Suc.hyps(1) [OF d le pre r] obtain k2 where
      ih2: "k2 \<le> (L - Suc l) * ?n
      \<and> main_flow_shape (trace (result_state r)) = main_flow_shape (trace st1)
         @ schedule_shape ?n (take k2 (List.product [Suc l..<L] [0..<?n]))
      \<and> length (history (result_state r)) = length (history st1) + k2
      \<and> (result_error r = None \<longrightarrow> k2 = (L - Suc l) * ?n)" ..
    note k2 = ih2 [THEN conjunct1]
    note s2 = ih2 [THEN conjunct2, THEN conjunct1]
    note h2 = ih2 [THEN conjunct2, THEN conjunct2, THEN conjunct1]
    note r2 = ih2 [THEN conjunct2, THEN conjunct2, THEN conjunct2]
    have Ll: "(L - l) * ?n = ?n + (L - Suc l) * ?n"
    proof -
      have "L - l = Suc (L - Suc l)" using l by simp
      then show ?thesis by simp
    qed
    have tk: "take (?n + k2) (List.product [l..<L] [0..<?n]) =
        map (Pair l) [0..<?n] @ take k2 (List.product [Suc l..<L] [0..<?n])"
      unfolding up using take_product_outer [of "[0..<?n]" k2 l "[Suc l..<L]"] by simp
    have s1': "main_flow_shape (trace st1) = main_flow_shape (trace st)
         @ schedule_shape ?n (map (Pair l) [0..<?n])"
      using s1 by (simp add: rs1 k1n)
    have h1': "length (history st1) = length (history st) + ?n"
      using h1 by (simp add: rs1 k1n)
    have 1: "?n + k2 \<le> (L - l) * ?n" using k2 by (simp add: Ll)
    have 2: "main_flow_shape (trace (result_state r)) = main_flow_shape (trace st)
        @ schedule_shape ?n (take (?n + k2) (List.product [l..<L] [0..<?n]))"
      unfolding tk schedule_shape_append using s2 s1' by simp
    have 3: "length (history (result_state r)) = length (history st) + (?n + k2)"
      using h2 h1' by simp
    have 4: "result_error r = None \<longrightarrow> ?n + k2 = (L - l) * ?n"
      using r2 by (simp add: Ll)
    show ?thesis
      apply (rule exI [of _ "?n + k2"])
      apply (intro conjI)
         apply (rule 1)
        apply (rule 2)
       apply (rule 3)
      apply (rule 4)
      done
  qed
qed


lemma iterations_first:
  "1 \<le> loops \<Longrightarrow> 0 < n \<Longrightarrow> \<exists>rest. iterations loops n = (0, 0) # rest"
  by (simp add: iterations_def upt_conv_Cons)

lemma iterations_2_3:
  "iterations 2 3 = [(0, 0), (0, 1), (0, 2), (1, 0), (1, 1), (1, 2)]"
  by (simp add: iterations_def upt_conv_Cons)

lemma online_training_shape:
  assumes ne: "chunks \<noteq> []"
    and r: "r = online_training process_chunk fit val_data chunks sched loops sel"
  shows "\<exists>k. k \<le> nat loops * length chunks
     \<and> main_flow_shape (trace (result_state r)) =
         schedule_shape (length chunks) (take k (iterations loops (length chunks)))
     \<and> length (history (result_state r)) = k
     \<and> (result_error r = None \<longrightarrow> k = nat loops * length chunks)"
proof -
  let ?st = "\<lparr>first_chunk = True, shared_chunk = Map.empty, selector = sel,
      history = [], trace = []\<rparr> :: ('a, 'b, 'c) state"
  have le: "0 \<le> nat loops" by simp
  have pre: "0 < nat loops \<longrightarrow> (first_chunk ?st \<longleftrightarrow> (0 :: nat) = 0)" by simp
  have r': "r = outer_loop process_chunk fit val_data chunks sched [0..<nat loops] ?st"
    using r by (simp add: online_training_def)
  from outer_loop_shape [OF ne le pre r'] obtain k where
    ih: "k \<le> (nat loops - 0) * length chunks
     \<and> main_flow_shape (trace (result_state r)) = main_flow_shape (trace ?st)
         @ schedule_shape (length chunks)
             (take k (List.product [0..<nat loops] [0..<length chunks]))
     \<and> length (history (result_state r)) = length (history ?st) + k
     \<and> (result_error r = None \<longrightarrow> k = (nat loops - 0) * length chunks)" ..
  then have "k \<le> nat loops * length chunks
     \<and> main_flow_shape (trace (result_state r)) =
         schedule_shape (length chunks) (take k (iterations loops (length chunks)))
     \<and> length (history (result_state r)) = k
     \<and> (result_error r = None \<longrightarrow> k = nat loops * length chunks)"
    by (simp add: main_flow_shape_def iterations_def)
  then show ?thesis ..
qed

text \<open>
  The log and the fit calls: in every state of a run, the selector and the history are
  what the fit calls on the batches logged, one after the other from the selector of
  the setup, give.
\<close>

lemma fit_batches_append: "fit_batches (xs @ ys) = fit_batches xs @ fit_batches ys"
  by (induction xs rule: fit_batches.induct) simp_all

lemma length_fit_batches: "length (fit_batches es) = length (fit_calls es)"
  by (induction es rule: fit_batches.induct) simp_all

lemma fit_all_snoc:
  "fit_all fit v m (bs @ [(p, t)]) =
     (case fit_all fit v m bs of
        (m', hs) \<Rightarrow> (case fit m' p t v of (m'', h) \<Rightarrow> (m'', hs @ [h])))"
  by (induction bs arbitrary: m) (auto split: prod.splits)

lemma perform_fitted:
  assumes "fit_all fit v sel (fit_batches (trace st)) = (selector st, history st)"
  shows "fit_all fit v sel (fit_batches (trace (perform fit v w nx l c p t st a))) =
     (selector (perform fit v w nx l c p t st a), history (perform fit v w nx l c p t st a))"
  using assms
  by (cases a; cases w)
     (auto simp: fit_batches_append fit_all_snoc split: prod.splits)

lemma foldl_perform_fitted:
  assumes "fit_all fit v sel (fit_batches (trace st)) = (selector st, history st)"
  shows "fit_all fit v sel (fit_batches (trace (foldl (perform fit v w nx l c p t) st as))) =
     (selector (foldl (perform fit v w nx l c p t) st as),
      history (foldl (perform fit v w nx l c p t) st as))"
  using assms
proof (induction as arbitrary: st)
  case Nil
  then show ?case by simp
next
  case (Cons a as)
  from Cons.IH [OF perform_fitted [OF Cons.prems]] show ?case by simp
qed

lemma current_batch_fitted:
  assumes "current_batch process_chunk chunks chunk st = Inr (p, t, st1)"
  shows "selector st1 = selector st \<and> history st1 = history st
     \<and> fit_batches (trace st1) = fit_batches (trace st)"
  using assms
  by (auto simp: current_batch_def fit_batches_append
        split: if_splits sum.splits option.splits)

lemma iteration_fitted:
  assumes inv: "fit_all fit v sel (fit_batches (trace st)) = (selector st, history st)"
    and r: "r = iteration process_chunk fit v chunks tm loop chunk st"
  shows "fit_all fit v sel (fit_batches (trace (result_state r))) =
     (selector (result_state r), history (result_state r))"
proof (cases "current_batch process_chunk chunks chunk st")
  case (Inl e)
  then have "r = Inl (e, st)" using r by (simp add: iteration_def)
  then show ?thesis using inv by (simp add: result_state_def)
next
  case (Inr b)
  then obtain p t st1 where cb: "current_batch process_chunk chunks chunk st = Inr (p, t, st1)"
    by (cases b) auto
  from current_batch_fitted [OF cb] inv
  have inv1: "fit_all fit v sel (fit_batches (trace st1)) = (selector st1, history st1)"
    by simp
  define nx where "nx = (if int chunk < int (length chunks) - 1 then chunk + 1 else 0)"
  show ?thesis
  proof (cases "nx < length chunks")
    case False
    then have "r = Inl (IndexError, st1)"
      using r cb by (simp add: iteration_def nx_def Let_def)
    then show ?thesis using inv1 by (simp add: result_state_def)
  next
    case True
    define st2 where "st2 = log_event (Start nx) st1"
    define st3 where "st3 =
      foldl (perform fit v (process_chunk (chunks ! nx)) nx loop chunk p t) st2 (interleaving tm)"
    have inv2: "fit_all fit v sel (fit_batches (trace st2)) = (selector st2, history st2)"
      using inv1 by (simp add: st2_def fit_batches_append)
    have inv3: "fit_all fit v sel (fit_batches (trace st3)) = (selector st3, history st3)"
      unfolding st3_def using inv2 by (rule foldl_perform_fitted)
    have "r = Inr (log_event Join st3)"
      using r cb True by (simp add: iteration_def nx_def st2_def st3_def Let_def)
    then show ?thesis using inv3 by (simp add: result_state_def fit_batches_append)
  qed
qed

lemma inner_loop_fitted:
  assumes "fit_all fit v sel (fit_batches (trace st)) = (selector st, history st)"
    and "r = inner_loop process_chunk fit v chunks sched loop cs st"
  shows "fit_all fit v sel (fit_batches (trace (result_state r))) =
     (selector (result_state r), history (result_state r))"
  using assms
proof (induction cs arbitrary: st r)
  case Nil
  then show ?case by (simp add: result_state_def)
next
  case (Cons c cs)
  define ri where "ri = iteration process_chunk fit v chunks (sched loop c) loop c st"
  note i1 = iteration_fitted [OF Cons.prems(1) ri_def]
  show ?case
  proof (cases ri)
    case (Inl x)
    then have "r = Inl x" using Cons.prems(2) by (simp add: ri_def [symmetric])
    with Inl i1 show ?thesis by (simp add: result_state_def)
  next
    case (Inr st1)
    then have r: "r = inner_loop process_chunk fit v chunks sched loop cs st1"
      using Cons.prems(2) by (simp add: ri_def [symmetric])
    from i1 Inr have "fit_all fit v sel (fit_batches (trace st1)) = (selector st1, history st1)"
      by (simp add: result_state_def)
    from Cons.IH [OF this r] show ?thesis .
  qed
qed

lemma outer_loop_fitted:
  assumes "fit_all fit v sel (fit_batches (trace st)) = (selector st, history st)"
    and "r = outer_loop process_chunk fit v chunks sched ls st"
  shows "fit_all fit v sel (fit_batches (trace (result_state r))) =
     (selector (result_state r), history (result_state r))"
  using assms
proof (induction ls arbitrary: st r)
  case Nil
  then show ?case by (simp add: result_state_def)
next
  case (Cons l ls)
  define ri where "ri = inner_loop process_chunk fit v chunks sched l [0..<length chunks] st"
  note i1 = inner_loop_fitted [OF Cons.prems(1) ri_def]
  show ?case
  proof (cases ri)
    case (Inl x)
    then have "r = Inl x" using Cons.prems(2) by (simp add: ri_def [symmetric])
    with Inl i1 show ?thesis by (simp add: result_state_def)
  next
    case (Inr st1)
    then have r: "r = outer_loop process_chunk fit v chunks sched ls st1"
      using Cons.prems(2) by (simp add: ri_def [symmetric])
    from i1 Inr have "fit_all fit v sel (fit_batches (trace st1)) = (selector st1, history st1)"
      by (simp add: result_state_def)
    from Cons.IH [OF this r] show ?thesis .
  qed
qed

lemma online_training_fitted:
  assumes "r = online_training process_chunk fit v chunks sched loops sel"
  shows "fit_all fit v sel (fit_batches (trace (result_state r))) =
     (selector (result_state r), history (result_state r))"
proof -
  let ?st = "\<lparr>first_chunk = True, shared_chunk = Map.empty, selector = sel,
      history = [], trace = []\<rparr> :: ('a, 'b, 'c) state"
  have "fit_all fit v sel (fit_batches (trace ?st)) = (selector ?st, history ?st)" by simp
  moreover have "r = outer_loop process_chunk fit v chunks sched [0..<nat loops] ?st"
    using assms by (simp add: online_training_def)
  ultimately show ?thesis by (rule outer_loop_fitted)
qed

lemma fit_batches_iteration_events:
  "fit_batches (iteration_events P T n sched (l, c)) = [(P c, T c)]"
  by (cases "sched l c")
     (simp_all add: iteration_events_def obtain_event_def fit_batches_append)

lemma fit_batches_run:
  "fit_batches (concat (map (iteration_events P T n sched) lcs)) =
     map (\<lambda>(l, c). (P c, T c)) lcs"
  by (induction lcs) (auto simp: fit_batches_append fit_batches_iteration_events)

text \<open>The log of the main flow of a run.\<close>

lemma online_training_log:
  assumes "1 \<le> loops" and "chunks \<noteq> []"
    and "r = online_training process_chunk fit val_data chunks sched loops sel"
  shows "(\<exists>k. k \<le> nat loops * length chunks
       \<and> main_flow_shape (trace (result_state r)) =
           schedule_shape (length chunks) (take k (iterations loops (length chunks)))
       \<and> (0 < k \<longrightarrow> take 2 (main_flow_shape (trace (result_state r))) =
             [Materialize 0 () (), Start (next_index (length chunks) 0)])
       \<and> prefetched (trace (result_state r)) =
           map (\<lambda>(loop, chunk). (chunk + 1) mod length chunks)
             (take k (iterations loops (length chunks)))
       \<and> fit_calls (trace (result_state r)) = take k (iterations loops (length chunks))
       \<and> length (history (result_state r)) = k
       \<and> (result_error r = None \<longrightarrow> k = nat loops * length chunks)
       \<and> (result_error r = None \<and> length chunks = 3 \<and> loops = 2 \<longrightarrow>
            prefetched (trace (result_state r)) = [1, 2, 0, 1, 2, 0]
            \<and> fit_calls (trace (result_state r)) =
                [(0, 0), (0, 1), (0, 2), (1, 0), (1, 1), (1, 2)]
            \<and> length (history (result_state r)) = 6))
   \<and> ((\<forall>c<length chunks. process_chunk (chunks ! c) = Inr (P c, T c)) \<longrightarrow>
        (\<exists>st. r = Inr st
          \<and> take 2 (trace st) = [Materialize 0 (P 0) (T 0), Start (next_index (length chunks) 0)]
          \<and> filter main_flow (trace st) =
              concat (map (main_flow_events P T (length chunks))
                (iterations loops (length chunks)))))"
proof (rule conjI)
  let ?n = "length chunks"
  let ?its = "iterations loops ?n"
  let ?s = "result_state r"
  from online_training_shape [OF assms(2,3)] obtain k where
    ih: "k \<le> nat loops * ?n
     \<and> main_flow_shape (trace ?s) = schedule_shape ?n (take k ?its)
     \<and> length (history ?s) = k
     \<and> (result_error r = None \<longrightarrow> k = nat loops * ?n)" ..
  note k = ih [THEN conjunct1]
  note sh = ih [THEN conjunct2, THEN conjunct1]
  note h = ih [THEN conjunct2, THEN conjunct2, THEN conjunct1]
  note e = ih [THEN conjunct2, THEN conjunct2, THEN conjunct2]
  have n: "0 < ?n" using assms(2) by simp
  obtain rest where its: "?its = (0, 0) # rest"
    using iterations_first [OF assms(1) n] ..
  have len: "length ?its = nat loops * ?n" by (simp add: iterations_def)
  have 3: "0 < k \<longrightarrow> take 2 (main_flow_shape (trace ?s)) =
      [Materialize 0 () (), Start (next_index ?n 0)]"
  proof
    assume "0 < k"
    then obtain j where "k = Suc j" by (cases k) simp_all
    then have "take k ?its = (0, 0) # take j rest" by (simp add: its)
    then show "take 2 (main_flow_shape (trace ?s)) =
        [Materialize 0 () (), Start (next_index ?n 0)]"
      by (simp add: sh schedule_shape_def main_flow_events_def obtain_event_def)
  qed
  have "prefetched (trace ?s) = prefetched (main_flow_shape (trace ?s))"
    by (simp add: prefetched_shape)
  then have 4: "prefetched (trace ?s) =
      map (\<lambda>(loop, chunk). (chunk + 1) mod ?n) (take k ?its)"
    by (simp add: sh prefetched_schedule_shape next_index_def)
  have "fit_calls (trace ?s) = fit_calls (main_flow_shape (trace ?s))"
    by (simp add: fit_calls_shape)
  then have 5: "fit_calls (trace ?s) = take k ?its"
    by (simp add: sh fit_calls_schedule_shape)
  have 8: "result_error r = None \<and> ?n = 3 \<and> loops = 2 \<longrightarrow>
      prefetched (trace ?s) = [1, 2, 0, 1, 2, 0]
      \<and> fit_calls (trace ?s) = [(0, 0), (0, 1), (0, 2), (1, 0), (1, 1), (1, 2)]
      \<and> length (history ?s) = 6"
  proof
    assume a: "result_error r = None \<and> ?n = 3 \<and> loops = 2"
    with e have k6: "k = 6" by simp
    from a have "?its = [(0, 0), (0, 1), (0, 2), (1, 0), (1, 1), (1, 2)]"
      by (simp add: iterations_2_3)
    then have "take k ?its = [(0, 0), (0, 1), (0, 2), (1, 0), (1, 1), (1, 2)]"
      by (simp add: k6)
    with 4 5 h k6 a show "prefetched (trace ?s) = [1, 2, 0, 1, 2, 0]
      \<and> fit_calls (trace ?s) = [(0, 0), (0, 1), (0, 2), (1, 0), (1, 1), (1, 2)]
      \<and> length (history ?s) = 6" by simp
  qed
  show "\<exists>k. k \<le> nat loops * ?n
       \<and> main_flow_shape (trace ?s) = schedule_shape ?n (take k ?its)
       \<and> (0 < k \<longrightarrow> take 2 (main_flow_shape (trace ?s)) =
             [Materialize 0 () (), Start (next_index ?n 0)])
       \<and> prefetched (trace ?s) = map (\<lambda>(loop, chunk). (chunk + 1) mod ?n) (take k ?its)
       \<and> fit_calls (trace ?s) = take k ?its
       \<and> length (history ?s) = k
       \<and> (result_error r = None \<longrightarrow> k = nat loops * ?n)
       \<and> (result_error r = None \<and> ?n = 3 \<and> loops = 2 \<longrightarrow>
            prefetched (trace ?s) = [1, 2, 0, 1, 2, 0]
            \<and> fit_calls (trace ?s) = [(0, 0), (0, 1), (0, 2), (1, 0), (1, 1), (1, 2)]
            \<and> length (history ?s) = 6)"
    apply (rule exI [of _ k])
    apply (intro conjI)
           apply (rule k)
          apply (rule sh)
         apply (rule 3)
        apply (rule 4)
       apply (rule 5)
      apply (rule h)
     apply (rule e)
    apply (rule 8)
    done
next
  let ?n = "length chunks"
  show "(\<forall>c<?n. process_chunk (chunks ! c) = Inr (P c, T c)) \<longrightarrow>
        (\<exists>st. r = Inr st
          \<and> take 2 (trace st) = [Materialize 0 (P 0) (T 0), Start (next_index ?n 0)]
          \<and> filter main_flow (trace st) =
              concat (map (main_flow_events P T ?n) (iterations loops ?n)))"
  proof
    assume succ: "\<forall>c<?n. process_chunk (chunks ! c) = Inr (P c, T c)"
    from online_training_trace [OF succ assms(2), of fit val_data sched loops sel] obtain st where
      run: "online_training process_chunk fit val_data chunks sched loops sel = Inr st"
      and tr: "trace st = concat (map (iteration_events P T ?n sched) (iterations loops ?n))"
      unfolding iterations_def by blast
    have n: "0 < ?n" using assms(2) by simp
    obtain rest where its: "iterations loops ?n = (0, 0) # rest"
      using iterations_first [OF assms(1) n] ..
    have 1: "take 2 (trace st) = [Materialize 0 (P 0) (T 0), Start (next_index ?n 0)]"
      by (simp add: tr its iteration_events_def obtain_event_def)
    have 2: "filter main_flow (trace st) =
        concat (map (main_flow_events P T ?n) (iterations loops ?n))"
      by (simp add: tr filter_run main_flow_iteration_events)
    from run 1 2 assms(3) show "\<exists>st. r = Inr st
          \<and> take 2 (trace st) = [Materialize 0 (P 0) (T 0), Start (next_index ?n 0)]
          \<and> filter main_flow (trace st) =
              concat (map (main_flow_events P T ?n) (iterations loops ?n))"
      by simp
  qed
qed

text \<open>
  Claim C1, as the code has it. In every run with \<open>loops \<ge> 1\<close> and at least one chunk,
  under every interleaving of the workers with the fits, the main flow goes through
  the iterations in the order (loop, chunk) until the run returns or raises, \<open>k\<close> of
  them: the first gets its batch by the blocking materialisation of chunk 0, the later
  ones from the dictionary, and each then starts the worker for chunk
  \<open>(chunk + 1) mod num_chunks\<close>, then makes one fit call, then joins. The selector and
  the history at the end are those of these fit calls, one after the other, on the
  batches logged. A run that returns has made all iterations; with three chunks and two
  loops the chunks prefetched are then 1, 2, 0, 1, 2, 0 and there are six fit calls, one
  per pair (loop, chunk) in order. When the extractor returns on every chunk the run
  returns, and the batches materialised and fitted are those of the chunks.
\<close>

theorem online_training_schedule:
  assumes "1 \<le> loops" and "chunks \<noteq> []"
    and "r = online_training process_chunk fit val_data chunks sched loops sel"
  shows "(\<exists>k. k \<le> nat loops * length chunks
       \<and> main_flow_shape (trace (result_state r)) =
           schedule_shape (length chunks) (take k (iterations loops (length chunks)))
       \<and> (0 < k \<longrightarrow> take 2 (main_flow_shape (trace (result_state r))) =
             [Materialize 0 () (), Start (next_index (length chunks) 0)])
       \<and> prefetched (trace (result_state r)) =
           map (\<lambda>(loop, chunk). (chunk + 1) mod length chunks)
             (take k (iterations loops (length chunks)))
       \<and> fit_calls (trace (result_state r)) = take k (iterations loops (length chunks))
       \<and> length (history (result_state r)) = k
       \<and> (result_error r = None \<longrightarrow> k = nat loops * length chunks)
       \<and> (result_error r = None \<and> length chunks = 3 \<and> loops = 2 \<longrightarrow>
            prefetched (trace (result_state r)) = [1, 2, 0, 1, 2, 0]
            \<and> fit_calls (trace (result_state r)) =
                [(0, 0), (0, 1), (0, 2), (1, 0), (1, 1), (1, 2)]
            \<and> length (history (result_state r)) = 6))
   \<and> length (fit_batches (trace (result_state r))) = length (fit_calls (trace (result_state r)))
   \<and> fit_all fit val_data sel (fit_batches (trace (result_state r))) =
       (selector (result_state r), history (result_state r))
   \<and> ((\<forall>c<length chunks. process_chunk (chunks ! c) = Inr (P c, T c)) \<longrightarrow>
        (\<exists>st. r = Inr st
          \<and> take 2 (trace st) = [Materialize 0 (P 0) (T 0), Start (next_index (length chunks) 0)]
          \<and> filter main_flow (trace st) =
              concat (map (main_flow_events P T (length chunks))
                (iterations loops (length chunks)))
          \<and> fit_batches (trace st) =
              map (\<lambda>(loop, chunk). (P chunk, T chunk)) (iterations loops (length chunks))
          \<and> (selector st, history st) =
              fit_all fit val_data sel
                (map (\<lambda>(loop, chunk). (P chunk, T chunk)) (iterations loops (length chunks)))))"
proof (intro conjI)
  note log = online_training_log [OF assms, of P T]
  show "\<exists>k. k \<le> nat loops * length chunks
       \<and> main_flow_shape (trace (result_state r)) =
           schedule_shape (length chunks) (take k (iterations loops (length chunks)))
       \<and> (0 < k \<longrightarrow> take 2 (main_flow_shape (trace (result_state r))) =
             [Materialize 0 () (), Start (next_index (length chunks) 0)])
       \<and> prefetched (trace (result_state r)) =
           map (\<lambda>(loop, chunk). (chunk + 1) mod length chunks)
             (take k (iterations loops (length chunks)))
       \<and> fit_calls (trace (result_state r)) = take k (iterations loops (length chunks))
       \<and> length (history (result_state r)) = k
       \<and> (result_error r = None \<longrightarrow> k = nat loops * length chunks)
       \<and> (result_error r = None \<and> length chunks = 3 \<and> loops = 2 \<longrightarrow>
            prefetched (trace (result_state r)) = [1, 2, 0, 1, 2, 0]
            \<and> fit_calls (trace (result_state r)) =
                [(0, 0), (0, 1), (0, 2), (1, 0), (1, 1), (1, 2)]
            \<and> length (history (result_state r)) = 6)"
    by (rule log [THEN conjunct1])
  show "length (fit_batches (trace (result_state r))) = length (fit_calls (trace (result_state r)))"
    by (rule length_fit_batches)
  show fitted: "fit_all fit val_data sel (fit_batches (trace (result_state r))) =
       (selector (result_state r), history (result_state r))"
    using assms(3) by (rule online_training_fitted)
  show "(\<forall>c<length chunks. process_chunk (chunks ! c) = Inr (P c, T c)) \<longrightarrow>
        (\<exists>st. r = Inr st
          \<and> take 2 (trace st) = [Materialize 0 (P 0) (T 0), Start (next_index (length chunks) 0)]
          \<and> filter main_flow (trace st) =
              concat (map (main_flow_events P T (length chunks))
                (iterations loops (length chunks)))
          \<and> fit_batches (trace st) =
              map (\<lambda>(loop, chunk). (P chunk, T chunk)) (iterations loops (length chunks))
          \<and> (selector st, history st) =
              fit_all fit val_data sel
                (map (\<lambda>(loop, chunk). (P chunk, T chunk)) (iterations loops (length chunks))))"
  proof
    let ?n = "length chunks"
    let ?bs = "map (\<lambda>(loop, chunk). (P chunk, T chunk)) (iterations loops ?n)"
    assume succ: "\<forall>c<?n. process_chunk (chunks ! c) = Inr (P c, T c)"
    with log [THEN conjunct2] obtain st where
      b: "r = Inr st
          \<and> take 2 (trace st) = [Materialize 0 (P 0) (T 0), Start (next_index ?n 0)]
          \<and> filter main_flow (trace st) =
              concat (map (main_flow_events P T ?n) (iterations loops ?n))" by blast
    note rs = b [THEN conjunct1]
    from online_training_trace [OF succ assms(2), of fit val_data sched loops sel] obtain st' where
      run: "online_training process_chunk fit val_data chunks sched loops sel = Inr st'"
      and tr: "trace st' = concat (map (iteration_events P T ?n sched) (iterations loops ?n))"
      unfolding iterations_def by blast
    from run rs assms(3) have st: "st' = st" by simp
    have s: "result_state r = st" using rs by (simp add: result_state_def)
    have fb: "fit_batches (trace st) = ?bs"
      using tr by (simp add: st fit_batches_run)
    have fa: "(selector st, history st) = fit_all fit val_data sel ?bs"
      using fitted by (simp add: s fb)
    show "\<exists>st. r = Inr st
          \<and> take 2 (trace st) = [Materialize 0 (P 0) (T 0), Start (next_index ?n 0)]
          \<and> filter main_flow (trace st) =
              concat (map (main_flow_events P T ?n) (iterations loops ?n))
          \<and> fit_batches (trace st) = ?bs
          \<and> (selector st, history st) = fit_all fit val_data sel ?bs"
      apply (rule exI [of _ st])
      apply (intro conjI)
          apply (rule b [THEN conjunct1])
         apply (rule b [THEN conjunct2, THEN conjunct1])
        apply (rule b [THEN conjunct2, THEN conjunct2])
       apply (rule fb)
      apply (rule fa)
      done
  qed
qed

lemmas run_simps = online_training_def iteration_def current_batch_def log_event_def
  demo_chunks_def demo_extract_def failing_extract_def demo_fit_def worker_first_def
  result_error_def result_state_def upt_conv_Cons Let_def

theorem online_training_schedule_witness:
  "result_error (online_training demo_extract demo_fit ([], []) demo_chunks worker_first 2 0) = None
   \<and> take 2 (main_flow_shape (trace (result_state
         (online_training demo_extract demo_fit ([], []) demo_chunks worker_first 2 0)))) =
       [Materialize 0 () (), Start 1]
   \<and> prefetched (trace (result_state
         (online_training demo_extract demo_fit ([], []) demo_chunks worker_first 2 0))) =
       [1, 2, 0, 1, 2, 0]
   \<and> fit_calls (trace (result_state
         (online_training demo_extract demo_fit ([], []) demo_chunks worker_first 2 0))) =
       [(0, 0), (0, 1), (0, 2), (1, 0), (1, 1), (1, 2)]
   \<and> selector (result_state
         (online_training demo_extract demo_fit ([], []) demo_chunks worker_first 2 0)) = 6
   \<and> history (result_state
         (online_training demo_extract demo_fit ([], []) demo_chunks worker_first 2 0)) =
       [[0, 1], [2, 3], [4], [0, 1], [2, 3], [4]]"
proof -
  let ?r = "online_training demo_extract demo_fit ([], []) demo_chunks worker_first 2 0"
  have h1: "(1 :: int) \<le> 2" by simp
  have h2: "demo_chunks \<noteq> []" by (simp add: demo_chunks_def)
  have h3: "\<forall>c<length demo_chunks. demo_extract (demo_chunks ! c) =
      Inr (demo_chunks ! c, map uminus (demo_chunks ! c))"
    by (simp add: demo_extract_def)
  note th = online_training_schedule [OF h1 h2 refl,
      of demo_extract demo_fit "([], [])" worker_first 0
         "\<lambda>c. demo_chunks ! c" "\<lambda>c. map uminus (demo_chunks ! c)"]
  have n: "length demo_chunks = 3" "next_index 3 0 = 1"
    by (simp_all add: demo_chunks_def next_index_def)
  from th [THEN conjunct2, THEN conjunct2, THEN conjunct2] h3 obtain st where
    s: "?r = Inr st
      \<and> take 2 (trace st) = [Materialize 0 (demo_chunks ! 0) (map uminus (demo_chunks ! 0)),
           Start (next_index (length demo_chunks) 0)]
      \<and> filter main_flow (trace st) =
          concat (map (main_flow_events (\<lambda>c. demo_chunks ! c) (\<lambda>c. map uminus (demo_chunks ! c))
            (length demo_chunks)) (iterations 2 (length demo_chunks)))
      \<and> fit_batches (trace st) =
          map (\<lambda>(loop, chunk). (demo_chunks ! chunk, map uminus (demo_chunks ! chunk)))
            (iterations 2 (length demo_chunks))
      \<and> (selector st, history st) =
          fit_all demo_fit ([], []) 0
            (map (\<lambda>(loop, chunk). (demo_chunks ! chunk, map uminus (demo_chunks ! chunk)))
              (iterations 2 (length demo_chunks)))" by blast
  note r = s [THEN conjunct1]
  note fa = s [THEN conjunct2, THEN conjunct2, THEN conjunct2, THEN conjunct2]
  have e: "result_error ?r = None" and rs: "result_state ?r = st"
    using r by (simp_all add: result_error_def result_state_def)
  from fa have "(selector st, history st) =
      fit_all demo_fit ([], []) 0
        (map (\<lambda>(loop, chunk). (demo_chunks ! chunk, map uminus (demo_chunks ! chunk)))
          [(0 :: nat, 0 :: nat), (0, 1), (0, 2), (1, 0), (1, 1), (1, 2)])"
    by (simp only: n(1) iterations_2_3)
  then have sh: "selector st = 6 \<and> history st = [[0, 1], [2, 3], [4], [0, 1], [2, 3], [4]]"
    by (simp add: demo_chunks_def demo_fit_def)
  from th [THEN conjunct1] obtain k where
    c: "k \<le> nat 2 * length demo_chunks
       \<and> main_flow_shape (trace (result_state ?r)) =
           schedule_shape (length demo_chunks) (take k (iterations 2 (length demo_chunks)))
       \<and> (0 < k \<longrightarrow> take 2 (main_flow_shape (trace (result_state ?r))) =
             [Materialize 0 () (), Start (next_index (length demo_chunks) 0)])
       \<and> prefetched (trace (result_state ?r)) =
           map (\<lambda>(loop, chunk). (chunk + 1) mod length demo_chunks)
             (take k (iterations 2 (length demo_chunks)))
       \<and> fit_calls (trace (result_state ?r)) = take k (iterations 2 (length demo_chunks))
       \<and> length (history (result_state ?r)) = k
       \<and> (result_error ?r = None \<longrightarrow> k = nat 2 * length demo_chunks)
       \<and> (result_error ?r = None \<and> length demo_chunks = 3 \<and> (2 :: int) = 2 \<longrightarrow>
            prefetched (trace (result_state ?r)) = [1, 2, 0, 1, 2, 0]
            \<and> fit_calls (trace (result_state ?r)) =
                [(0, 0), (0, 1), (0, 2), (1, 0), (1, 1), (1, 2)]
            \<and> length (history (result_state ?r)) = 6)" ..
  note c3 = c [THEN conjunct2, THEN conjunct2, THEN conjunct1]
  note c7 = c [THEN conjunct2, THEN conjunct2, THEN conjunct2, THEN conjunct2,
      THEN conjunct2, THEN conjunct2, THEN conjunct1]
  note c8 = c [THEN conjunct2, THEN conjunct2, THEN conjunct2, THEN conjunct2,
      THEN conjunct2, THEN conjunct2, THEN conjunct2]
  from c7 e n have k: "k = 6" by simp
  from c3 k n
  have t: "take 2 (main_flow_shape (trace (result_state ?r))) = [Materialize 0 () (), Start 1]"
    by simp
  from c8 e n have "prefetched (trace (result_state ?r)) = [1, 2, 0, 1, 2, 0]
      \<and> fit_calls (trace (result_state ?r)) = [(0, 0), (0, 1), (0, 2), (1, 0), (1, 1), (1, 2)]
      \<and> length (history (result_state ?r)) = 6"
    by simp
  with e t sh rs show ?thesis by simp
qed

text \<open>
  The claim as first written gives the six prefetches and the six fit calls for every
  run with three chunks and two loops. With the training dates 0, 4, 5 in chunks of one
  and an extractor that raises on the date 4, the worker of the first iteration raises
  and the dictionary is still empty at the read of the second iteration: the run ends
  there with KeyError, after one prefetch and one fit call.
\<close>

theorem run_ends_after_first_worker_failure:
  "result_error (online_training failing_extract demo_fit ([], []) [[0], [4], [5]]
       worker_first 2 0) = Some KeyError
   \<and> prefetched (trace (result_state (online_training failing_extract demo_fit ([], [])
       [[0], [4], [5]] worker_first 2 0))) = [1]
   \<and> fit_calls (trace (result_state (online_training failing_extract demo_fit ([], [])
       [[0], [4], [5]] worker_first 2 0))) = [(0, 0)]
   \<and> history (result_state (online_training failing_extract demo_fit ([], [])
       [[0], [4], [5]] worker_first 2 0)) = [[0]]"
  by (simp add: run_simps)

text \<open>
  Claim C2, as the code has it. In a run whose extractor returns on every chunk, and
  under every interleaving of the workers with the fits, the events on the dictionary
  are, iteration by iteration: the read of the batch of the current chunk (none on the
  first iteration), then the two writes of the one worker of this iteration, of the
  batch of the next chunk, then the join. So every read comes after the join that
  follows the complete write of the batch it returns, and exactly one worker writes
  between two reads.
\<close>

theorem handoff_order:
  assumes "chunks \<noteq> []"
    and "\<forall>c<length chunks. process_chunk (chunks ! c) = Inr (P c, T c)"
  shows "\<exists>st. online_training process_chunk fit val_data chunks sched loops sel = Inr st
     \<and> filter slot_event (trace st) =
         concat (map (handoff_events P T (length chunks)) (iterations loops (length chunks)))"
proof -
  from online_training_trace [OF assms(2,1), of fit val_data sched loops sel] obtain st where
    run: "online_training process_chunk fit val_data chunks sched loops sel = Inr st"
    and tr: "trace st = concat (map (iteration_events P T (length chunks) sched)
        (iterations loops (length chunks)))"
    unfolding iterations_def by blast
  have "filter slot_event (trace st) =
      concat (map (handoff_events P T (length chunks)) (iterations loops (length chunks)))"
    by (simp add: tr filter_run slot_event_iteration_events)
  with run show ?thesis by blast
qed

theorem handoff_order_witness:
  "\<exists>st. online_training demo_extract demo_fit ([], []) demo_chunks worker_first 1 0 = Inr st
     \<and> filter slot_event (trace st) =
        [WriteP 1 [2, 3], WriteT 1 [-2, -3], Join,
         SlotRead 1 [2, 3] [-2, -3], WriteP 2 [4], WriteT 2 [-4], Join,
         SlotRead 2 [4] [-4], WriteP 0 [0, 1], WriteT 0 [0, -1], Join]"
proof -
  have h2: "demo_chunks \<noteq> []" by (simp add: demo_chunks_def)
  have h3: "\<forall>c<length demo_chunks. demo_extract (demo_chunks ! c) =
      Inr (demo_chunks ! c, map uminus (demo_chunks ! c))"
    by (simp add: demo_extract_def)
  have n: "length demo_chunks = 3" by (simp add: demo_chunks_def)
  have p: "iterations 1 3 = [(0, 0), (0, 1), (0, 2)]"
    by (simp add: iterations_def upt_conv_Cons)
  from handoff_order [OF h2 h3, of demo_fit "([], [])" worker_first 1 0] obtain st where
    "online_training demo_extract demo_fit ([], []) demo_chunks worker_first 1 0 = Inr st"
    "filter slot_event (trace st) =
       concat (map (handoff_events (\<lambda>c. demo_chunks ! c) (\<lambda>c. map uminus (demo_chunks ! c)) 3)
         [(0, 0), (0, 1), (0, 2)])"
    unfolding n p by blast
  then show ?thesis
    by (simp add: handoff_events_def next_index_def demo_chunks_def)
qed

text \<open>
  The claim as first written covers every run. When the worker for the third chunk
  raises, it writes nothing and the join returns all the same: the iteration of the
  third chunk reads the batch of the second chunk once more, with no write since the
  read before, and the run goes on to its end.
\<close>

theorem stale_read_after_worker_failure:
  "result_error (online_training failing_extract demo_fit ([], []) demo_chunks worker_first 1 0) = None
   \<and> filter slot_event (trace (result_state
         (online_training failing_extract demo_fit ([], []) demo_chunks worker_first 1 0))) =
       [WriteP 1 [2, 3], WriteT 1 [-2, -3], Join,
        SlotRead 1 [2, 3] [-2, -3], WorkerRaised 2 ExtractorError, Join,
        SlotRead 2 [2, 3] [-2, -3], WriteP 0 [0, 1], WriteT 0 [0, -1], Join]"
  by (simp add: run_simps)

lemma current_batch_frame:
  assumes "current_batch process_chunk chunks chunk st = Inr (p, t, st1)"
  shows "shared_chunk st1 = shared_chunk st \<and> \<not> first_chunk st1
     \<and> selector st1 = selector st \<and> history st1 = history st"
  using assms
  by (auto simp: current_batch_def split: if_splits sum.splits option.splits)

lemma current_batch_slot:
  assumes "\<not> first_chunk st"
  shows "current_batch process_chunk chunks chunk st =
     (case shared_chunk st ''p'' of
        None \<Rightarrow> Inl KeyError
      | Some p \<Rightarrow>
          (case shared_chunk st ''t'' of
             None \<Rightarrow> Inl KeyError
           | Some t \<Rightarrow> Inr (p, t, log_event (SlotRead chunk p t) st)))"
  using assms by (simp add: current_batch_def)

text \<open>
  Claim C3, as the code has it. When the extractor raises inside the background worker
  of an iteration, nothing is raised at the join: the iteration returns with its own
  fit record appended and the dictionary as it was before the iteration. The next
  iteration raises KeyError at its read if the dictionary is still empty, which ends
  the run with the history as it then is; if the dictionary holds a batch, the next
  iteration takes that batch as its own.
\<close>

theorem worker_failure_not_propagated:
  assumes "chunk < length chunks"
    and "process_chunk (chunks ! next_index (length chunks) chunk) = Inl e"
    and "current_batch process_chunk chunks chunk st = Inr (p, t, st1)"
  shows "\<exists>st'. iteration process_chunk fit val_data chunks tm loop chunk st = Inr st'
     \<and> shared_chunk st' = shared_chunk st
     \<and> \<not> first_chunk st'
     \<and> selector st' = fst (fit (selector st) p t val_data)
     \<and> history st' = history st @ [snd (fit (selector st) p t val_data)]
     \<and> (shared_chunk st ''p'' = None \<or> shared_chunk st ''t'' = None \<longrightarrow>
          iteration process_chunk fit val_data chunks tm' loop' chunk' st' = Inl (KeyError, st'))
     \<and> (shared_chunk st ''p'' = Some p' \<and> shared_chunk st ''t'' = Some t' \<longrightarrow>
          current_batch process_chunk chunks chunk' st' =
            Inr (p', t', log_event (SlotRead chunk' p' t') st'))"
proof -
  let ?nx = "next_index (length chunks) chunk"
  have nx: "?nx < length chunks" using assms(1) by (rule next_index_less)
  note fr = current_batch_frame [OF assms(3)]
  obtain m hist where fit: "fit (selector st) p t val_data = (m, hist)"
    by (cases "fit (selector st) p t val_data")
  obtain st' where it: "iteration process_chunk fit val_data chunks tm loop chunk st = Inr st'"
    and sh: "shared_chunk st' = shared_chunk st" and fc: "\<not> first_chunk st'"
    and se: "selector st' = m" and hi: "history st' = history st @ [hist]"
    using assms nx fr fit
    by (cases tm) (simp_all add: iteration_def next_chunk_index Let_def)
  have 1: "iteration process_chunk fit val_data chunks tm' loop' chunk' st' = Inl (KeyError, st')"
    if "shared_chunk st ''p'' = None \<or> shared_chunk st ''t'' = None"
    using that fc sh
    by (auto simp: iteration_def current_batch_slot split: option.splits)
  have 2: "current_batch process_chunk chunks chunk' st' =
      Inr (p', t', log_event (SlotRead chunk' p' t') st')"
    if "shared_chunk st ''p'' = Some p' \<and> shared_chunk st ''t'' = Some t'"
    using that fc sh by (simp add: current_batch_slot)
  from it sh fc se hi fit 1 2 show ?thesis by auto
qed

theorem worker_failure_not_propagated_witness:
  "\<exists>st'. iteration failing_extract demo_fit ([], []) [[0, 1], [4]] WorkerFirst 0 0
        \<lparr>first_chunk = True, shared_chunk = Map.empty, selector = 0, history = [], trace = []\<rparr>
        = Inr st'
     \<and> shared_chunk st' = Map.empty
     \<and> history st' = [[0, 1]]
     \<and> iteration failing_extract demo_fit ([], []) [[0, 1], [4]] WorkerFirst 0 1 st'
         = Inl (KeyError, st')"
proof -
  let ?st = "\<lparr>first_chunk = True, shared_chunk = Map.empty, selector = 0 :: nat,
      history = [] :: int list list, trace = [] :: int list event list\<rparr>"
  let ?chunks = "[[0, 1], [4 :: int]]"
  have h1: "0 < length ?chunks" by simp
  have h2: "failing_extract (?chunks ! next_index (length ?chunks) 0) = Inl ExtractorError"
    by (simp add: failing_extract_def next_index_def)
  have h3: "current_batch failing_extract ?chunks 0 ?st =
      Inr ([0, 1], [0, -1], log_event (Materialize 0 [0, 1] [0, -1]) (?st\<lparr>first_chunk := False\<rparr>))"
    by (simp add: current_batch_def failing_extract_def demo_extract_def)
  from worker_failure_not_propagated [OF h1 h2 h3, of demo_fit "([], [])" WorkerFirst 0
      WorkerFirst 0 1]
  obtain st' where
    "iteration failing_extract demo_fit ([], []) ?chunks WorkerFirst 0 0 ?st = Inr st'"
    "shared_chunk st' = Map.empty" "history st' = [[0, 1]]"
    "iteration failing_extract demo_fit ([], []) ?chunks WorkerFirst 0 1 st' = Inl (KeyError, st')"
    by (auto simp: demo_fit_def)
  then show ?thesis by blast
qed

text \<open>
  The claim as first written has the run abort at the join. With the worker for the
  third chunk raising in both loops, the run of two loops returns with six fit records:
  no error reaches the main flow, and the third chunk is replaced, in both loops, by
  the batch of the second.
\<close>

theorem run_continues_after_worker_failure:
  "result_error (online_training failing_extract demo_fit ([], []) demo_chunks worker_first 2 0) = None
   \<and> history (result_state
         (online_training failing_extract demo_fit ([], []) demo_chunks worker_first 2 0)) =
       [[0, 1], [2, 3], [2, 3], [0, 1], [2, 3], [2, 3]]
   \<and> fit_calls (trace (result_state
         (online_training failing_extract demo_fit ([], []) demo_chunks worker_first 2 0))) =
       [(0, 0), (0, 1), (0, 2), (1, 0), (1, 1), (1, 2)]"
  by (simp add: run_simps)

lemma outer_loop_no_chunks:
  "outer_loop process_chunk fit val_data [] sched ls st = Inr st"
  by (induction ls) simp_all

text \<open>
  Claim C6. With \<open>loops = 0\<close> or no chunk the setup runs as in any run: the validation
  batch is materialised, the model built and its imputer and scaler fitted on the first
  \<open>scaler_fit_size\<close> dates of the training set, and an exception of the extractor there
  ends the run. No fit follows: the history is empty, the log has no event, and the
  selector is the one the setup left.
\<close>

theorem train_without_training:
  assumes "loops = 0 \<or> chunks = []"
  shows "train process_chunk build_model init_fit fit sched val_set train_set chunks
       scaler_fit_size loops =
     (case process_chunk val_set of
        Inl e \<Rightarrow> Inl (e, None)
      | Inr (p_val, t_val) \<Rightarrow>
          (case process_chunk (py_slice train_set 0 scaler_fit_size) of
             Inl e \<Rightarrow> Inl (e, None)
           | Inr (predictors, targets) \<Rightarrow>
               Inr \<lparr>first_chunk = True, shared_chunk = Map.empty,
                    selector = init_fit (build_model p_val t_val) predictors targets,
                    history = [], trace = []\<rparr>))"
proof -
  have "online_training process_chunk fit v chunks sched loops sel =
      Inr \<lparr>first_chunk = True, shared_chunk = Map.empty, selector = sel,
           history = [], trace = []\<rparr>" for v sel
    using assms by (auto simp: online_training_def outer_loop_no_chunks)
  then show ?thesis
    by (simp add: train_def Let_def split: sum.splits prod.splits)
qed

theorem train_without_training_witness:
  "train demo_extract (\<lambda>p t. 0) (\<lambda>m p t. Suc m) demo_fit worker_first [0] [1, 2, 3, 4]
       [[1, 2], [3, 4]] 3 0 =
     Inr \<lparr>first_chunk = True, shared_chunk = Map.empty, selector = 1, history = [], trace = []\<rparr>
   \<and> train failing_extract (\<lambda>p t. 0) (\<lambda>m p t. Suc m) demo_fit worker_first [4] [] [] 3 2 =
     Inl (ExtractorError, None)"
  using train_without_training [of 0 "[[1, 2], [3, 4]]" demo_extract "\<lambda>p t. 0" "\<lambda>m p t. Suc m"
      demo_fit worker_first "[0]" "[1, 2, 3, 4]" 3]
    train_without_training [of 2 "[]" failing_extract "\<lambda>p t. 0" "\<lambda>m p t. Suc m"
      demo_fit worker_first "[4]" "[]" 3]
  by (simp add: demo_extract_def failing_extract_def py_slice_def slice_index_def)

text \<open>
  Claim C8. In an iteration after the first, with the batch \<open>(p, t)\<close> in the dictionary
  and a worker whose extractor returns \<open>(p', t')\<close>: under every interleaving, also
  when both writes of the worker come before the fit, the fit is called on \<open>(p, t)\<close>,
  the selector and the history record are those of a fit on \<open>(p, t)\<close>, and the
  dictionary ends with \<open>(p', t')\<close>.
\<close>

theorem fit_batch_unchanged:
  assumes "\<not> first_chunk st"
    and "shared_chunk st ''p'' = Some p" and "shared_chunk st ''t'' = Some t"
    and "chunk < length chunks"
    and "process_chunk (chunks ! next_index (length chunks) chunk) = Inr (p', t')"
  shows "\<exists>st'. iteration process_chunk fit val_data chunks tm loop chunk st = Inr st'
     \<and> trace st' = trace st
          @ SlotRead chunk p t # Start (next_index (length chunks) chunk)
          # map (\<lambda>a. case a of
                  WorkerWriteP \<Rightarrow> WriteP (next_index (length chunks) chunk) p'
                | WorkerWriteT \<Rightarrow> WriteT (next_index (length chunks) chunk) t'
                | MainFit \<Rightarrow> Fit loop chunk p t) (interleaving tm)
          @ [Join]
     \<and> selector st' = fst (fit (selector st) p t val_data)
     \<and> history st' = history st @ [snd (fit (selector st) p t val_data)]
     \<and> shared_chunk st' ''p'' = Some p' \<and> shared_chunk st' ''t'' = Some t'"
proof -
  have nx: "next_index (length chunks) chunk < length chunks"
    using assms(4) by (rule next_index_less)
  obtain m hist where fit: "fit (selector st) p t val_data = (m, hist)"
    by (cases "fit (selector st) p t val_data")
  show ?thesis
    using assms nx fit
    by (cases tm)
       (simp_all add: iteration_def current_batch_slot next_chunk_index Let_def)
qed

theorem fit_batch_unchanged_witness:
  "\<exists>st'. iteration demo_extract demo_fit ([], []) demo_chunks WorkerFirst 0 1
        \<lparr>first_chunk = False, shared_chunk = [''p'' \<mapsto> [2, 3], ''t'' \<mapsto> [-2, -3]],
         selector = 1, history = [[0, 1]], trace = []\<rparr> = Inr st'
     \<and> trace st' = [SlotRead 1 [2, 3] [-2, -3], Start 2, WriteP 2 [4], WriteT 2 [-4],
                     Fit 0 1 [2, 3] [-2, -3], Join]
     \<and> history st' = [[0, 1], [2, 3]]
     \<and> shared_chunk st' ''p'' = Some [4] \<and> shared_chunk st' ''t'' = Some [-4]"
proof -
  let ?st = "\<lparr>first_chunk = False, shared_chunk = [''p'' \<mapsto> [2, 3], ''t'' \<mapsto> [-2, -3]],
      selector = 1 :: nat, history = [[0, 1 :: int]], trace = [] :: int list event list\<rparr>"
  have h: "\<not> first_chunk ?st" "shared_chunk ?st ''p'' = Some [2, 3]"
    "shared_chunk ?st ''t'' = Some [-2, -3]" "1 < length demo_chunks"
    "demo_extract (demo_chunks ! next_index (length demo_chunks) 1) = Inr ([4], [-4])"
    by (simp_all add: demo_chunks_def demo_extract_def next_index_def)
  have n: "next_index (length demo_chunks) 1 = 2"
    by (simp add: demo_chunks_def next_index_def)
  from fit_batch_unchanged [where process_chunk = demo_extract and chunks = demo_chunks
      and chunk = 1 and st = ?st and fit = demo_fit and val_data = "([], [])"
      and tm = WorkerFirst and loop = 0, OF h] n
  obtain st' where
    "iteration demo_extract demo_fit ([], []) demo_chunks WorkerFirst 0 1 ?st = Inr st'"
    "trace st' = [SlotRead 1 [2, 3] [-2, -3], Start 2, WriteP 2 [4], WriteT 2 [-4],
                  Fit 0 1 [2, 3] [-2, -3], Join]"
    "history st' = [[0, 1], [2, 3]]"
    "shared_chunk st' ''p'' = Some [4]" "shared_chunk st' ''t'' = Some [-4]"
    by (auto simp: demo_fit_def)
  then show ?thesis by blast
qed

end
